theory Spec2Isabelle
  imports Complex_Main
begin

section \<open>Edges of the topology graph (core/gui/graph/edges.py)\<close>

text \<open>
  The module draws the links of an emulated network on a tkinter canvas. An edge owns
  one line item and up to three text items of the canvas, and it writes into the
  wireless-network dictionary that the canvas carries. The embedding keeps the canvas as an
  explicit store that every method takes and returns, the edge object as a record, and each
  Python exception as a value of \<open>error\<close>.

  A Python float is modelled by the real number it denotes; infinities, NaN and the sign of
  zero are outside the model. The arithmetic on coordinates is modelled without rounding.
  The scaling of a throughput value, whose last digits decide the text shown and the
  comparison with the threshold, keeps its rounding as a parameter (see \<open>set_throughput\<close>).
  Handles and canvas item ids are Python integers, modelled by \<open>int\<close>.
  The calls to \<open>logging.debug\<close> change no state and are left out; fonts, justification
  and the smoothing flag of an item are rendering options that no method reads back and are
  not stored.
\<close>

subsection \<open>Errors and constants\<close>

datatype error = ValueError | KeyError | TclError | AttributeError

definition TEXT_DISTANCE :: real where
  "TEXT_DISTANCE = 3 / 10"

definition EDGE_WIDTH :: real where
  "EDGE_WIDTH = 3"

definition EDGE_COLOR :: string where
  "EDGE_COLOR = ''#ff0000''"

definition WIRELESS_WIDTH :: real where
  "WIRELESS_WIDTH = 3 / 2"

definition WIRELESS_COLOR :: string where
  "WIRELESS_COLOR = ''#009933''"

subsection \<open>The canvas\<close>

text \<open>
  The canvas class (\<open>CanvasGraph\<close>, a \<open>tk.Canvas\<close>) is not part of this module. What
  the edge methods use of it is modelled here after tkinter:
  \<^item> an item has a coordinate list and options; a new item gets the next integer id and is
    put on top of the display list;
  \<^item> \<open>coords(id)\<close> returns the coordinate list of the item, the empty list when no item
    has that id; \<open>coords(id, ...)\<close> replaces the coordinates of an existing item and does
    nothing when there is none (the methods of this module pass six numbers for a line and
    two for a text, which these item types accept). tkinter cuts the Tcl command at an
    argument that is
    \<open>None\<close>, so with \<open>None\<close> for the id both forms are the command without an item,
    which Tcl rejects (\<open>TclError\<close>);
  \<^item> \<open>delete(id)\<close> removes the item; it does nothing when no item has that id, and
    \<open>delete(None)\<close> is the delete command without arguments, which does nothing too;
  \<^item> \<open>itemconfig(id, ...)\<close> sets options of an existing item and does nothing when there
    is none; tkinter drops a \<open>None\<close> id from this command, which then names no item
    and changes nothing;
  \<^item> \<open>tag_raise(id)\<close> moves an existing item to the top of the display list;
  \<^item> \<open>tag_bind(id, event, callback)\<close> records that the event is bound for the id; with
    \<open>None\<close> for the id the command is cut before the id and Tcl rejects it.
  The tags of the \<open>tags\<close> module are an enumeration.
\<close>

datatype tag = EDGE | WIRELESS_EDGE | LINK_INFO | THROUGHPUT | NODE

datatype kind = Line | Text | Image

datatype visibility = NORMAL | HIDDEN

record item =
  item_kind :: kind
  item_coords :: "real list"
  item_tags :: tag
  item_text :: string
  item_fill :: "string option"
  item_width :: "real option"
  item_state :: visibility

text \<open>
  A node of the canvas (\<open>CanvasNode\<close>, another module): the type of its core node and
  the antenna markers it has been asked to draw.
\<close>

record canvas_node =
  core_node_type :: int
  antennas :: nat

record canvas =
  items :: "int \<rightharpoonup> item"
  stack :: "int list"
  next_id :: int
  bindings :: "(int \<times> string) set"
  nodes :: "int \<rightharpoonup> canvas_node"
  wireless_network :: "int \<rightharpoonup> int set"
  app_scale :: real
  throughput_threshold :: real
  throughput_color :: string
  throughput_width :: real

definition create_item :: "canvas \<Rightarrow> item \<Rightarrow> int \<times> canvas" where
  "create_item c it =
     (next_id c,
      c\<lparr>items := (items c)(next_id c \<mapsto> it),
        stack := stack c @ [next_id c],
        next_id := next_id c + 1\<rparr>)"

definition create_line :: "canvas \<Rightarrow> real list \<Rightarrow> tag \<Rightarrow> real \<Rightarrow> string \<Rightarrow> int \<times> canvas" where
  "create_line c cs tg w col =
     create_item c \<lparr>item_kind = Line, item_coords = cs, item_tags = tg, item_text = [],
                     item_fill = Some col, item_width = Some w, item_state = NORMAL\<rparr>"

text \<open>tkinter drops an option whose value is \<open>None\<close>, so the text is then the empty default.\<close>

definition create_text :: "canvas \<Rightarrow> real \<Rightarrow> real \<Rightarrow> string option \<Rightarrow> tag \<Rightarrow> int \<times> canvas" where
  "create_text c x y txt tg =
     create_item c \<lparr>item_kind = Text, item_coords = [x, y], item_tags = tg,
                     item_text = (case txt of None \<Rightarrow> [] | Some s \<Rightarrow> s),
                     item_fill = None, item_width = None, item_state = NORMAL\<rparr>"

definition canvas_coords :: "canvas \<Rightarrow> int option \<Rightarrow> error + real list" where
  "canvas_coords c r =
     (case r of
        None \<Rightarrow> Inl TclError
      | Some i \<Rightarrow> (case items c i of None \<Rightarrow> Inr [] | Some it \<Rightarrow> Inr (item_coords it)))"

definition canvas_set_coords :: "canvas \<Rightarrow> int option \<Rightarrow> real list \<Rightarrow> error + canvas" where
  "canvas_set_coords c r cs =
     (case r of
        None \<Rightarrow> Inl TclError
      | Some i \<Rightarrow>
          (case items c i of
             None \<Rightarrow> Inr c
           | Some it \<Rightarrow> Inr (c\<lparr>items := (items c)(i \<mapsto> it\<lparr>item_coords := cs\<rparr>)\<rparr>)))"

definition canvas_delete :: "canvas \<Rightarrow> int option \<Rightarrow> canvas" where
  "canvas_delete c r =
     (case r of
        None \<Rightarrow> c
      | Some i \<Rightarrow> c\<lparr>items := (items c)(i := None), stack := removeAll i (stack c)\<rparr>)"

text \<open>The options to set are given as the update \<open>f\<close> of the item.\<close>

definition itemconfig :: "canvas \<Rightarrow> int option \<Rightarrow> (item \<Rightarrow> item) \<Rightarrow> canvas" where
  "itemconfig c r f =
     (case r of
        None \<Rightarrow> c
      | Some i \<Rightarrow>
          (case items c i of None \<Rightarrow> c | Some it \<Rightarrow> c\<lparr>items := (items c)(i \<mapsto> f it)\<rparr>))"

definition tag_raise :: "canvas \<Rightarrow> int \<Rightarrow> canvas" where
  "tag_raise c i =
     (if i \<in> set (stack c) then c\<lparr>stack := removeAll i (stack c) @ [i]\<rparr> else c)"

definition tag_bind :: "canvas \<Rightarrow> int option \<Rightarrow> string \<Rightarrow> error + canvas" where
  "tag_bind c r ev =
     (case r of
        None \<Rightarrow> Inl TclError
      | Some i \<Rightarrow> Inr (c\<lparr>bindings := insert (i, ev) (bindings c)\<rparr>))"

subsection \<open>Edge tokens\<close>

text \<open>
  \<open>tuple(sorted([src, dst]))\<close>: the two handles in ascending order. The tuple is
  modelled by the list of its components.
\<close>

definition create_edge_token :: "int \<Rightarrow> int \<Rightarrow> int list" where
  "create_edge_token s d = sort [s, d]"

definition create_token :: "int \<Rightarrow> int \<Rightarrow> int list" where
  "create_token s d = sort [s, d]"

subsection \<open>Interface labels\<close>

text \<open>
  The interface and link messages come from the gRPC API; the fields read here are the
  two addresses with their masks, and which of the two interfaces a link has.
\<close>

record interface =
  ip4 :: string
  ip4mask :: int
  ip6 :: string
  ip6mask :: int

record link =
  interface_one :: "interface option"
  interface_two :: "interface option"

definition digit :: "nat \<Rightarrow> char" where
  "digit d = ''0123456789'' ! d"

fun digits :: "nat \<Rightarrow> string" where
  "digits n = (if n < 10 then [digit n] else digits (n div 10) @ [digit (n mod 10)])"

declare digits.simps [simp del]

definition str_int :: "int \<Rightarrow> string" where
  "str_int i = (if i < 0 then ''-'' @ digits (nat (- i)) else digits (nat i))"

definition interface_label :: "interface \<Rightarrow> string" where
  "interface_label ifc =
     (let label = (if ip4 ifc \<noteq> [] then ip4 ifc @ ''/'' @ str_int (ip4mask ifc) else []) in
      if ip6 ifc \<noteq> [] then label @ [CHR 0x0A] @ ip6 ifc @ ''/'' @ str_int (ip6mask ifc)
      else label)"

subsection \<open>The class Edge\<close>

text \<open>
  One record holds the attributes of \<open>Edge\<close> and those \<open>CanvasEdge\<close> adds. The
  attribute \<open>id\<close> is the field \<open>edge_id\<close>. A method that assigns to no attribute of
  the edge returns the canvas only.
\<close>

record edge =
  edge_id :: "int option"
  src :: int
  dst :: "int option"
  arc :: real
  token :: "int list option"
  color :: string
  width :: real
  src_interface :: "interface option"
  dst_interface :: "interface option"
  text_src :: "int option"
  text_dst :: "int option"
  text_middle :: "int option"
  link :: "link option"
  asymmetric_link :: "link option"
  throughput :: "real option"

text \<open>
  \<open>math.atan2(y, x)\<close> on the reals: the angle of the point \<open>(x, y)\<close> in
  \<open>(-\<pi>, \<pi>]\<close>, and 0 at the origin.
\<close>

definition atan2 :: "real \<Rightarrow> real \<Rightarrow> real" where
  "atan2 y x =
     (if 0 < x then arctan (y / x)
      else if x < 0 then (if 0 \<le> y then arctan (y / x) + pi else arctan (y / x) - pi)
      else if 0 < y then pi / 2
      else if y < 0 then - (pi / 2)
      else 0)"

text \<open>\<open>Edge._get_midpoint\<close>. The second argument of \<open>atan2\<close> is \<open>dst_x - src_y\<close>, as in the source.\<close>

definition Edge_get_midpoint :: "edge \<Rightarrow> real \<times> real \<Rightarrow> real \<times> real \<Rightarrow> real \<times> real" where
  "Edge_get_midpoint e src_pos dst_pos =
     (case src_pos of (src_x, src_y) \<Rightarrow>
      case dst_pos of (dst_x, dst_y) \<Rightarrow>
        let t = atan2 (dst_y - src_y) (dst_x - src_y);
            x_mp = (src_x + dst_x) / 2 + arc e * sin t;
            y_mp = (src_y + dst_y) / 2 - arc e * cos t
        in (x_mp, y_mp))"

text \<open>\<open>Edge.draw\<close> with the tag of the class as a parameter.\<close>

definition draw :: "tag \<Rightarrow> edge \<Rightarrow> canvas \<Rightarrow> real \<times> real \<Rightarrow> real \<times> real \<Rightarrow> edge \<times> canvas" where
  "draw tg e c src_pos dst_pos =
     (let mid_pos = Edge_get_midpoint e src_pos dst_pos;
          (i, c') = create_line c
                      [fst src_pos, snd src_pos, fst mid_pos, snd mid_pos, fst dst_pos, snd dst_pos]
                      tg (width e * app_scale c) (color e)
      in (e\<lparr>edge_id := Some i\<rparr>, c'))"

text \<open>
  \<open>move_dst\<close> and \<open>move_src\<close> unpack the coordinates of the line into six names; any
  other number of coordinates is Python's \<open>ValueError\<close>.
\<close>

definition move_dst :: "edge \<Rightarrow> canvas \<Rightarrow> real \<Rightarrow> real \<Rightarrow> error + canvas" where
  "move_dst e c x y =
     (case canvas_coords c (edge_id e) of
        Inl err \<Rightarrow> Inl err
      | Inr cs \<Rightarrow>
          (case cs of
             [src_x, src_y, _, _, _, _] \<Rightarrow>
               let mid_pos = Edge_get_midpoint e (src_x, src_y) (x, y)
               in canvas_set_coords c (edge_id e) [src_x, src_y, fst mid_pos, snd mid_pos, x, y]
           | _ \<Rightarrow> Inl ValueError))"

definition move_src :: "edge \<Rightarrow> canvas \<Rightarrow> real \<Rightarrow> real \<Rightarrow> error + canvas" where
  "move_src e c x y =
     (case canvas_coords c (edge_id e) of
        Inl err \<Rightarrow> Inl err
      | Inr cs \<Rightarrow>
          (case cs of
             [_, _, _, _, dst_x, dst_y] \<Rightarrow>
               let mid_pos = Edge_get_midpoint e (x, y) (dst_x, dst_y)
               in canvas_set_coords c (edge_id e) [x, y, fst mid_pos, snd mid_pos, dst_x, dst_y]
           | _ \<Rightarrow> Inl ValueError))"

definition Edge_move_node :: "edge \<Rightarrow> canvas \<Rightarrow> int \<Rightarrow> real \<Rightarrow> real \<Rightarrow> error + canvas" where
  "Edge_move_node e c node_id x y =
     (if src e = node_id then move_src e c x y else move_dst e c x y)"

definition Edge_delete :: "edge \<Rightarrow> canvas \<Rightarrow> canvas" where
  "Edge_delete e c = canvas_delete c (edge_id e)"

text \<open>\<open>Edge.__init__\<close>, with \<open>None\<close> for the attributes that \<open>CanvasEdge\<close> adds.\<close>

definition Edge_init :: "int \<Rightarrow> int option \<Rightarrow> edge" where
  "Edge_init s d =
     \<lparr>edge_id = None, src = s, dst = d, arc = 0, token = None, color = EDGE_COLOR,
      width = EDGE_WIDTH, src_interface = None, dst_interface = None, text_src = None,
      text_dst = None, text_middle = None, link = None, asymmetric_link = None,
      throughput = None\<rparr>"

definition CanvasWirelessEdge_init ::
    "canvas \<Rightarrow> int \<Rightarrow> int \<Rightarrow> real \<times> real \<Rightarrow> real \<times> real \<Rightarrow> int list \<Rightarrow> edge \<times> canvas" where
  "CanvasWirelessEdge_init c s d src_pos dst_pos tok =
     draw WIRELESS_EDGE
       ((Edge_init s (Some d))\<lparr>token := Some tok, width := WIRELESS_WIDTH, color := WIRELESS_COLOR\<rparr>)
       c src_pos dst_pos"

subsection \<open>The class CanvasEdge\<close>

text \<open>
  The context menu and the configuration dialog (\<open>create_context\<close>, \<open>configure\<close>)
  only open widgets of other modules and are not modelled.
\<close>

definition set_binding :: "edge \<Rightarrow> canvas \<Rightarrow> error + canvas" where
  "set_binding e c = tag_bind c (edge_id e) ''<ButtonRelease-3>''"

definition CanvasEdge_init ::
    "canvas \<Rightarrow> int \<Rightarrow> real \<times> real \<Rightarrow> real \<times> real \<Rightarrow> error + edge \<times> canvas" where
  "CanvasEdge_init c s src_pos dst_pos =
     (let (e, c1) = draw EDGE (Edge_init s None) c src_pos dst_pos
      in case set_binding e c1 of Inl err \<Rightarrow> Inl err | Inr c2 \<Rightarrow> Inr (e, c2))"

definition get_coordinates :: "edge \<Rightarrow> canvas \<Rightarrow> error + real \<times> real \<times> real \<times> real" where
  "get_coordinates e c =
     (case canvas_coords c (edge_id e) of
        Inl err \<Rightarrow> Inl err
      | Inr cs \<Rightarrow>
          (case cs of
             [x1, y1, _, _, x2, y2] \<Rightarrow>
               let v1 = x2 - x1;
                   v2 = y2 - y1;
                   ux = TEXT_DISTANCE * v1;
                   uy = TEXT_DISTANCE * v2
               in Inr (x1 + ux, y1 + uy, x2 - ux, y2 - uy)
           | _ \<Rightarrow> Inl ValueError))"

text \<open>
  \<open>CanvasEdge.get_midpoint\<close> unpacks the coordinates of the line into four names, so it
  returns only for a line of two points.
\<close>

definition get_midpoint :: "edge \<Rightarrow> canvas \<Rightarrow> error + real \<times> real" where
  "get_midpoint e c =
     (case canvas_coords c (edge_id e) of
        Inl err \<Rightarrow> Inl err
      | Inr cs \<Rightarrow>
          (case cs of
             [x1, y1, x2, y2] \<Rightarrow> Inr ((x1 + x2) / 2, (y1 + y2) / 2)
           | _ \<Rightarrow> Inl ValueError))"

text \<open>Reading a field of a link that is \<open>None\<close> is Python's \<open>AttributeError\<close>.\<close>

definition create_labels :: "edge \<Rightarrow> error + string option \<times> string option" where
  "create_labels e =
     (case link e of
        None \<Rightarrow> Inl AttributeError
      | Some l \<Rightarrow>
          Inr (map_option interface_label (interface_one l),
               map_option interface_label (interface_two l)))"

definition draw_labels :: "edge \<Rightarrow> canvas \<Rightarrow> error + edge \<times> canvas" where
  "draw_labels e c =
     (case get_coordinates e c of
        Inl err \<Rightarrow> Inl err
      | Inr (x1, y1, x2, y2) \<Rightarrow>
          (case create_labels e of
             Inl err \<Rightarrow> Inl err
           | Inr (label_one, label_two) \<Rightarrow>
               let (i1, c1) = create_text c x1 y1 label_one LINK_INFO;
                   (i2, c2) = create_text c1 x2 y2 label_two LINK_INFO
               in Inr (e\<lparr>text_src := Some i1, text_dst := Some i2\<rparr>, c2)))"

definition set_link :: "edge \<Rightarrow> canvas \<Rightarrow> link \<Rightarrow> error + edge \<times> canvas" where
  "set_link e c l = draw_labels (e\<lparr>link := Some l\<rparr>) c"

text \<open>A label that is \<open>None\<close> is an option that tkinter drops: the text stays.\<close>

definition set_text :: "string option \<Rightarrow> item \<Rightarrow> item" where
  "set_text txt it = (case txt of None \<Rightarrow> it | Some s \<Rightarrow> it\<lparr>item_text := s\<rparr>)"

definition redraw :: "edge \<Rightarrow> canvas \<Rightarrow> error + canvas" where
  "redraw e c =
     (case create_labels e of
        Inl err \<Rightarrow> Inl err
      | Inr (label_one, label_two) \<Rightarrow>
          Inr (itemconfig (itemconfig c (text_src e) (set_text label_one))
                 (text_dst e) (set_text label_two)))"

definition update_labels :: "edge \<Rightarrow> canvas \<Rightarrow> error + canvas" where
  "update_labels e c =
     (case get_coordinates e c of
        Inl err \<Rightarrow> Inl err
      | Inr (x1, y1, x2, y2) \<Rightarrow>
          (case canvas_set_coords c (text_src e) [x1, y1] of
             Inl err \<Rightarrow> Inl err
           | Inr c1 \<Rightarrow>
               (case canvas_set_coords c1 (text_dst e) [x2, y2] of
                  Inl err \<Rightarrow> Inl err
                | Inr c2 \<Rightarrow>
                    (case text_middle e of
                       None \<Rightarrow> Inr c2
                     | Some t \<Rightarrow>
                         (case get_midpoint e c2 of
                            Inl err \<Rightarrow> Inl err
                          | Inr (x, y) \<Rightarrow> canvas_set_coords c2 (Some t) [x, y])))))"

text \<open>The override \<open>CanvasEdge.move_node\<close>.\<close>

definition move_node :: "edge \<Rightarrow> canvas \<Rightarrow> int \<Rightarrow> real \<Rightarrow> real \<Rightarrow> error + canvas" where
  "move_node e c node_id x y =
     (case Edge_move_node e c node_id x y of
        Inl err \<Rightarrow> Inl err
      | Inr c1 \<Rightarrow> update_labels e c1)"

text \<open>
  The format \<open>.3f\<close> of a float: the number the float denotes is rounded to a multiple
  of 1/1000, a tie to the even one, and written with its sign, integer digits and three
  decimals.
\<close>

definition round_half_even :: "real \<Rightarrow> int" where
  "round_half_even x =
     (let f = \<lfloor>x\<rfloor>; d = x - of_int f
      in if d < 1 / 2 then f else if 1 / 2 < d then f + 1 else if even f then f else f + 1)"

definition format_3f :: "real \<Rightarrow> string" where
  "format_3f x =
     (let n = nat (round_half_even (\<bar>x\<bar> * 1000))
      in (if x < 0 then ''-'' else []) @ digits (n div 1000) @ ''.'' @
         [digit (n div 100 mod 10), digit (n div 10 mod 10), digit (n mod 10)])"

definition set_style :: "string \<Rightarrow> real \<Rightarrow> item \<Rightarrow> item" where
  "set_style col w it = it\<lparr>item_fill := Some col, item_width := Some w\<rparr>"

text \<open>
  \<open>set_throughput\<close> rebinds its parameter to the scaled value; the attribute
  \<open>throughput\<close> of the edge is not assigned. The product \<open>0.001 * throughput\<close> is a
  float operation: the literal is the float nearest to 1/1000 and the product is rounded to
  a float again. The parameter \<open>fl\<close> is this rounding of a real number to a float;
  nothing is assumed about it.
\<close>

definition set_throughput ::
    "(real \<Rightarrow> real) \<Rightarrow> edge \<Rightarrow> canvas \<Rightarrow> real \<Rightarrow> error + edge \<times> canvas" where
  "set_throughput fl e c tp =
     (let scaled = fl (fl 0.001 * tp);
          val = format_3f scaled @ '' kbps'';
          labelled =
            (case text_middle e of
               None \<Rightarrow>
                 (case get_midpoint e c of
                    Inl err \<Rightarrow> Inl err
                  | Inr (x, y) \<Rightarrow>
                      let (i, c1) = create_text c x y (Some val) THROUGHPUT
                      in Inr (e\<lparr>text_middle := Some i\<rparr>, c1))
             | Some t \<Rightarrow> Inr (e, itemconfig c (Some t) (set_text (Some val))))
      in case labelled of
           Inl err \<Rightarrow> Inl err
         | Inr (e1, c1) \<Rightarrow>
             let (col, w) =
                   (if throughput_threshold c1 < scaled
                    then (throughput_color c1, throughput_width c1)
                    else (EDGE_COLOR, EDGE_WIDTH))
             in Inr (e1, itemconfig c1 (edge_id e1) (set_style col w)))"

text \<open>
  The classification of node types (\<open>NodeUtils.is_wireless_node\<close>) is in another module
  and is the parameter \<open>is_wireless_node\<close> of the methods that call it.
\<close>

text \<open>
  \<open>if hub not in wlan_network: wlan_network[hub] = set()\<close> and then
  \<open>wlan_network[hub].add(peer)\<close>.
\<close>

definition register_peer :: "(int \<rightharpoonup> int set) \<Rightarrow> int \<Rightarrow> int \<Rightarrow> (int \<rightharpoonup> int set)" where
  "register_peer wlan_network hub peer =
     (let w = (case wlan_network hub of None \<Rightarrow> wlan_network(hub \<mapsto> {}) | Some _ \<Rightarrow> wlan_network)
      in case w hub of None \<Rightarrow> w | Some peers \<Rightarrow> w(hub \<mapsto> insert peer peers))"

text \<open>A handle that is not a key of \<open>canvas.nodes\<close>, also \<open>None\<close>, is \<open>KeyError\<close>.\<close>

definition lookup_node :: "canvas \<Rightarrow> int option \<Rightarrow> error + canvas_node" where
  "lookup_node c r =
     (case r of
        None \<Rightarrow> Inl KeyError
      | Some h \<Rightarrow> (case nodes c h of None \<Rightarrow> Inl KeyError | Some n \<Rightarrow> Inr n))"

definition is_wireless :: "(int \<Rightarrow> bool) \<Rightarrow> edge \<Rightarrow> canvas \<Rightarrow> error + bool \<times> canvas" where
  "is_wireless is_wireless_node e c =
     (case lookup_node c (Some (src e)) of
        Inl err \<Rightarrow> Inl err
      | Inr src_node \<Rightarrow>
          (case lookup_node c (dst e) of
             Inl err \<Rightarrow> Inl err
           | Inr dst_node \<Rightarrow>
               let is_src_wireless = is_wireless_node (core_node_type src_node);
                   is_dst_wireless = is_wireless_node (core_node_type dst_node);
                   wlan_network = wireless_network c;
                   c' = (case dst e of
                           None \<Rightarrow> c
                         | Some d \<Rightarrow>
                             if is_src_wireless \<and> \<not> is_dst_wireless
                             then c\<lparr>wireless_network := register_peer wlan_network (src e) d\<rparr>
                             else if \<not> is_src_wireless \<and> is_dst_wireless
                             then c\<lparr>wireless_network := register_peer wlan_network d (src e)\<rparr>
                             else c)
               in Inr (is_src_wireless \<or> is_dst_wireless, c')))"

text \<open>
  Modelled from the spec: \<open>CanvasNode.add_antenna\<close> is in another module; the spec says
  that the edge requests an antenna marker to be drawn on a node. The model counts the
  markers requested on each node. The node object is shared with \<open>canvas.nodes\<close>, so
  the request is written to the entry of the handle.
\<close>

definition add_antenna :: "canvas \<Rightarrow> int \<Rightarrow> canvas" where
  "add_antenna c h =
     (case nodes c h of
        None \<Rightarrow> c
      | Some n \<Rightarrow> c\<lparr>nodes := (nodes c)(h \<mapsto> n\<lparr>antennas := Suc (antennas n)\<rparr>)\<rparr>)"

definition check_antenna :: "(int \<Rightarrow> bool) \<Rightarrow> edge \<Rightarrow> canvas \<Rightarrow> error + canvas" where
  "check_antenna is_wireless_node e c =
     (case lookup_node c (Some (src e)) of
        Inl err \<Rightarrow> Inl err
      | Inr src_node \<Rightarrow>
          (case lookup_node c (dst e) of
             Inl err \<Rightarrow> Inl err
           | Inr dst_node \<Rightarrow>
               (case dst e of
                  None \<Rightarrow> Inl KeyError
                | Some d \<Rightarrow>
                    let is_src_wireless = is_wireless_node (core_node_type src_node);
                        is_dst_wireless = is_wireless_node (core_node_type dst_node)
                    in if is_src_wireless \<or> is_dst_wireless
                       then if is_src_wireless \<and> \<not> is_dst_wireless then Inr (add_antenna c d)
                            else if \<not> is_src_wireless \<and> is_dst_wireless
                            then Inr (add_antenna c (src e))
                            else Inr (add_antenna c (src e))
                       else Inr c)))"

definition set_state :: "visibility \<Rightarrow> item \<Rightarrow> item" where
  "set_state v it = it\<lparr>item_state := v\<rparr>"

definition check_wireless :: "(int \<Rightarrow> bool) \<Rightarrow> edge \<Rightarrow> canvas \<Rightarrow> error + canvas" where
  "check_wireless is_wireless_node e c =
     (case is_wireless is_wireless_node e c of
        Inl err \<Rightarrow> Inl err
      | Inr (wireless, c1) \<Rightarrow>
          if wireless
          then check_antenna is_wireless_node e (itemconfig c1 (edge_id e) (set_state HIDDEN))
          else Inr c1)"

text \<open>
  \<open>complete\<close> unpacks the coordinates of the destination node's item into two names.
\<close>

definition complete :: "(int \<Rightarrow> bool) \<Rightarrow> edge \<Rightarrow> canvas \<Rightarrow> int \<Rightarrow> error + edge \<times> canvas" where
  "complete is_wireless_node e c d =
     (let e1 = e\<lparr>dst := Some d, token := Some (create_edge_token (src e) d)\<rparr>
      in case canvas_coords c (Some d) of
           Inl err \<Rightarrow> Inl err
         | Inr cs \<Rightarrow>
             (case cs of
                [x, y] \<Rightarrow>
                  (case move_dst e1 c x y of
                     Inl err \<Rightarrow> Inl err
                   | Inr c1 \<Rightarrow>
                       (case check_wireless is_wireless_node e1 c1 of
                          Inl err \<Rightarrow> Inl err
                        | Inr c2 \<Rightarrow> Inr (e1, tag_raise (tag_raise c2 (src e1)) d)))
              | _ \<Rightarrow> Inl ValueError))"

definition delete :: "edge \<Rightarrow> canvas \<Rightarrow> canvas" where
  "delete e c =
     (let c1 = Edge_delete e c;
          c2 = canvas_delete c1 (text_src e);
          c3 = canvas_delete c2 (text_dst e)
      in canvas_delete c3 (text_middle e))"

definition reset :: "edge \<Rightarrow> canvas \<Rightarrow> edge \<times> canvas" where
  "reset e c =
     (let c1 = canvas_delete c (text_middle e);
          e1 = e\<lparr>text_middle := None\<rparr>
      in (e1, itemconfig c1 (edge_id e1) (set_style EDGE_COLOR EDGE_WIDTH)))"

subsection \<open>Observations used in the statements\<close>

text \<open>The peers attached to a hub: its entry in the wireless network, empty when it has none.\<close>

definition peers :: "canvas \<Rightarrow> int \<Rightarrow> int set" where
  "peers c hub = (case wireless_network c hub of None \<Rightarrow> {} | Some s \<Rightarrow> s)"

text \<open>The state option of the line of an edge, when the line is on the canvas.\<close>

definition line_state :: "canvas \<Rightarrow> edge \<Rightarrow> visibility option" where
  "line_state c e = (case edge_id e of None \<Rightarrow> None | Some l \<Rightarrow> map_option item_state (items c l))"

subsection \<open>A concrete session\<close>

text \<open>
  A canvas with two nodes, 1 at (10, 20) and 2 at (110, 220), whose core node types are
  parameters; an edge started at node 1 towards the pointer at (50, 60); and the same edge
  completed at node 2. A node type counts as wireless here when it is 1.
\<close>

definition node_item :: "real \<Rightarrow> real \<Rightarrow> item" where
  "node_item x y =
     \<lparr>item_kind = Image, item_coords = [x, y], item_tags = NODE, item_text = [],
      item_fill = None, item_width = None, item_state = NORMAL\<rparr>"

definition line_item :: "real list \<Rightarrow> item" where
  "line_item cs =
     \<lparr>item_kind = Line, item_coords = cs, item_tags = EDGE, item_text = [],
      item_fill = Some EDGE_COLOR, item_width = Some 3, item_state = NORMAL\<rparr>"

definition label_item :: "real \<Rightarrow> real \<Rightarrow> string \<Rightarrow> tag \<Rightarrow> item" where
  "label_item x y s tg =
     \<lparr>item_kind = Text, item_coords = [x, y], item_tags = tg, item_text = s,
      item_fill = None, item_width = None, item_state = NORMAL\<rparr>"

definition empty_canvas :: "int \<Rightarrow> int \<Rightarrow> canvas" where
  "empty_canvas t1 t2 =
     \<lparr>items = [1 \<mapsto> node_item 10 20, 2 \<mapsto> node_item 110 220], stack = [1, 2], next_id = 3,
      bindings = {},
      nodes = [1 \<mapsto> \<lparr>core_node_type = t1, antennas = 0\<rparr>,
               2 \<mapsto> \<lparr>core_node_type = t2, antennas = 0\<rparr>],
      wireless_network = Map.empty, app_scale = 1, throughput_threshold = 200,
      throughput_color = ''#00ff00'', throughput_width = 10\<rparr>"

definition pending_edge :: edge where
  "pending_edge = (Edge_init 1 None)\<lparr>edge_id := Some 3\<rparr>"

definition pending_canvas :: "int \<Rightarrow> int \<Rightarrow> canvas" where
  "pending_canvas t1 t2 =
     (empty_canvas t1 t2)
       \<lparr>items := [1 \<mapsto> node_item 10 20, 2 \<mapsto> node_item 110 220,
                  3 \<mapsto> line_item [10, 20, 30, 40, 50, 60]],
        stack := [1, 2, 3], next_id := 4, bindings := {(3, ''<ButtonRelease-3>'')}\<rparr>"

definition completed_edge :: edge where
  "completed_edge = pending_edge\<lparr>dst := Some 2, token := Some [1, 2]\<rparr>"

definition completed_canvas :: canvas where
  "completed_canvas =
     (pending_canvas 0 0)
       \<lparr>items := [1 \<mapsto> node_item 10 20, 2 \<mapsto> node_item 110 220,
                  3 \<mapsto> line_item [10, 20, 60, 120, 110, 220]],
        stack := [3, 1, 2]\<rparr>"

definition is_type_1 :: "int \<Rightarrow> bool" where
  "is_type_1 t = (t = 1)"

definition demo_link :: link where
  "demo_link =
     \<lparr>interface_one = Some \<lparr>ip4 = ''10.0.0.1'', ip4mask = 24, ip6 = [], ip6mask = 0\<rparr>,
      interface_two = None\<rparr>"

text \<open>The edge after \<open>set_link\<close>, with its two endpoint labels.\<close>

definition labelled_edge :: edge where
  "labelled_edge = completed_edge\<lparr>text_src := Some 4, text_dst := Some 5, link := Some demo_link\<rparr>"

definition labelled_canvas :: canvas where
  "labelled_canvas =
     completed_canvas
       \<lparr>items := [1 \<mapsto> node_item 10 20, 2 \<mapsto> node_item 110 220,
                  3 \<mapsto> line_item [10, 20, 60, 120, 110, 220],
                  4 \<mapsto> label_item 40 80 ''10.0.0.1/24'' LINK_INFO,
                  5 \<mapsto> label_item 80 160 [] LINK_INFO],
        stack := [3, 1, 2, 4, 5], next_id := 6\<rparr>"

text \<open>The completed edge as one of several between its nodes, with an arc of 1.\<close>

definition arced_edge :: edge where
  "arced_edge = completed_edge\<lparr>arc := 1\<rparr>"

subsection \<open>Notions of the specification\<close>


text \<open>
  The scalar product of the offset of the control point from the geometric midpoint with the
  vector from source to destination; the offset is perpendicular to the line when it is 0.
\<close>

definition offset_dot :: "edge \<Rightarrow> real \<times> real \<Rightarrow> real \<times> real \<Rightarrow> real" where
  "offset_dot e p q =
     (fst (Edge_get_midpoint e p q) - (fst p + fst q) / 2) * (fst q - fst p) +
     (snd (Edge_get_midpoint e p q) - (snd p + snd q) / 2) * (snd q - snd p)"

text \<open>The classification invoked \<open>n\<close> times in a row.\<close>

fun is_wireless_times :: "nat \<Rightarrow> (int \<Rightarrow> bool) \<Rightarrow> edge \<Rightarrow> canvas \<Rightarrow> error + canvas" where
  "is_wireless_times 0 W e c = Inr c"
| "is_wireless_times (Suc n) W e c =
     (case is_wireless W e c of Inl err \<Rightarrow> Inl err | Inr (_, c') \<Rightarrow> is_wireless_times n W e c')"

text \<open>
  The primitives an edge refers to, and whether one of these references is dangling: it
  names an id that has no item on the canvas.
\<close>

definition primitives :: "edge \<Rightarrow> int set" where
  "primitives e =
     set_option (edge_id e) \<union> set_option (text_src e) \<union> set_option (text_dst e) \<union>
     set_option (text_middle e)"

definition dangling :: "edge \<Rightarrow> canvas \<Rightarrow> bool" where
  "dangling e c = (\<exists>i \<in> primitives e. items c i = None)"

subsection \<open>The states a run can reach\<close>

text \<open>
  An edge object and its canvas change through the methods of the edge and through the
  host: the graph and the other modules that use the canvas. The host creates, changes and
  deletes other items, nodes and settings, and it assigns attributes of the edge such as
  \<open>arc\<close>, the interfaces and the asymmetric link. Two things are taken to be the edge's
  own: the four attributes that refer to its primitives (\<open>id\<close>, \<open>text_src\<close>,
  \<open>text_dst\<close>, \<open>text_middle\<close>), which only the methods of the edge assign, and the items
  these attributes refer to, which the host leaves as they are.
\<close>

definition same_primitives :: "edge \<Rightarrow> edge \<Rightarrow> bool" where
  "same_primitives e e' =
     (edge_id e' = edge_id e \<and> text_src e' = text_src e \<and> text_dst e' = text_dst e \<and>
      text_middle e' = text_middle e)"

definition host_step :: "edge \<Rightarrow> canvas \<Rightarrow> canvas \<Rightarrow> bool" where
  "host_step e c c' = (next_id c \<le> next_id c' \<and> (\<forall>i \<in> primitives e. items c' i = items c i))"

text \<open>
  The reachable states start with the constructor of \<open>CanvasEdge\<close> on any canvas and are
  closed under the steps of the host and every method of the edge that returns. A call that
  raises leaves what its completed steps have done; these steps are the assignments and the
  methods \<open>move_src\<close>, \<open>move_dst\<close>, \<open>update_labels\<close>, \<open>draw_labels\<close>,
  \<open>is_wireless\<close>, \<open>check_wireless\<close> and \<open>_check_antenna\<close>, which are steps of
  their own here. The rounding \<open>fl\<close> and the classifier \<open>W\<close> are fixed for a run.
\<close>

inductive reachable :: "(real \<Rightarrow> real) \<Rightarrow> (int \<Rightarrow> bool) \<Rightarrow> edge \<Rightarrow> canvas \<Rightarrow> bool"
  for fl :: "real \<Rightarrow> real" and W :: "int \<Rightarrow> bool" where
  created: "CanvasEdge_init c0 s src_pos dst_pos = Inr (e, c) \<Longrightarrow> reachable fl W e c"
| host_canvas: "reachable fl W e c \<Longrightarrow> host_step e c c' \<Longrightarrow> reachable fl W e c'"
| host_attributes: "reachable fl W e c \<Longrightarrow> same_primitives e e' \<Longrightarrow> reachable fl W e' c"
| completed: "reachable fl W e c \<Longrightarrow> complete W e c d = Inr (e', c') \<Longrightarrow> reachable fl W e' c'"
| link_set: "reachable fl W e c \<Longrightarrow> set_link e c l = Inr (e', c') \<Longrightarrow> reachable fl W e' c'"
| redrawn: "reachable fl W e c \<Longrightarrow> redraw e c = Inr c' \<Longrightarrow> reachable fl W e c'"
| node_moved: "reachable fl W e c \<Longrightarrow> move_node e c node_id x y = Inr c' \<Longrightarrow> reachable fl W e c'"
| throughput_set:
    "reachable fl W e c \<Longrightarrow> set_throughput fl e c tp = Inr (e', c') \<Longrightarrow> reachable fl W e' c'"
| was_reset: "reachable fl W e c \<Longrightarrow> reset e c = (e', c') \<Longrightarrow> reachable fl W e' c'"
| deleted: "reachable fl W e c \<Longrightarrow> reachable fl W e (delete e c)"
| line_deleted: "reachable fl W e c \<Longrightarrow> reachable fl W e (Edge_delete e c)"
| src_moved: "reachable fl W e c \<Longrightarrow> move_src e c x y = Inr c' \<Longrightarrow> reachable fl W e c'"
| dst_moved: "reachable fl W e c \<Longrightarrow> move_dst e c x y = Inr c' \<Longrightarrow> reachable fl W e c'"
| base_node_moved:
    "reachable fl W e c \<Longrightarrow> Edge_move_node e c node_id x y = Inr c' \<Longrightarrow> reachable fl W e c'"
| labels_updated: "reachable fl W e c \<Longrightarrow> update_labels e c = Inr c' \<Longrightarrow> reachable fl W e c'"
| labels_drawn: "reachable fl W e c \<Longrightarrow> draw_labels e c = Inr (e', c') \<Longrightarrow> reachable fl W e' c'"
| wireless_checked: "reachable fl W e c \<Longrightarrow> check_wireless W e c = Inr c' \<Longrightarrow> reachable fl W e c'"
| wireless_tested: "reachable fl W e c \<Longrightarrow> is_wireless W e c = Inr (b, c') \<Longrightarrow> reachable fl W e c'"
| antenna_checked: "reachable fl W e c \<Longrightarrow> check_antenna W e c = Inr c' \<Longrightarrow> reachable fl W e c'"

subsection \<open>An invariant of the reachable states\<close>

text \<open>
  The edge has no throughput label; its line has an id below the next id of the canvas;
  the two endpoint labels are both absent or both present, differ from the line and from
  each other; and the line is either gone from the canvas or has six coordinates, and then
  every primitive the edge refers to is on the canvas.
\<close>

definition line_inv :: "int \<Rightarrow> edge \<Rightarrow> canvas \<Rightarrow> bool" where
  "line_inv l e c =
     (l < next_id c \<and>
      (text_src e = None \<longleftrightarrow> text_dst e = None) \<and>
      text_src e \<noteq> Some l \<and> text_dst e \<noteq> Some l \<and>
      (text_src e = None \<or> text_src e \<noteq> text_dst e) \<and>
      (items c l = None \<or>
       (\<exists>it. items c l = Some it \<and> length (item_coords it) = 6 \<and>
             (\<forall>i \<in> primitives e. items c i \<noteq> None))))"

definition edge_inv :: "edge \<Rightarrow> canvas \<Rightarrow> bool" where
  "edge_inv e c = (text_middle e = None \<and> (\<exists>l. edge_id e = Some l \<and> line_inv l e c))"

text \<open>
  A step from \<open>c\<close> to \<open>c'\<close> keeps the primitives of the edge when the ids only grow,
  primitives that are on the canvas stay, a line that is gone stays gone, and a line of six
  coordinates still has six.
\<close>

definition keeps :: "edge \<Rightarrow> canvas \<Rightarrow> canvas \<Rightarrow> bool" where
  "keeps e c c' =
     (next_id c \<le> next_id c' \<and>
      (\<forall>i \<in> primitives e. items c i \<noteq> None \<longrightarrow> items c' i \<noteq> None) \<and>
      (\<forall>l. edge_id e = Some l \<longrightarrow> items c l = None \<longrightarrow> items c' l = None) \<and>
      (\<forall>l it. edge_id e = Some l \<longrightarrow> items c l = Some it \<longrightarrow> length (item_coords it) = 6 \<longrightarrow>
         (\<exists>it'. items c' l = Some it' \<and> length (item_coords it') = 6)))"

section \<open>Properties\<close>

lemmas session_defs =
  labelled_edge_def labelled_canvas_def
  completed_edge_def completed_canvas_def pending_edge_def pending_canvas_def empty_canvas_def
  Edge_init_def line_item_def node_item_def label_item_def

subsection \<open>The concrete session is what the methods produce\<close>




subsection \<open>The line of an edge has six coordinates\<close>

lemma draw_six_coordinates:
  "draw tg e c (sx, sy) (ox, oy) =
     (e\<lparr>edge_id := Some (next_id c)\<rparr>,
      c\<lparr>items := (items c)(next_id c \<mapsto>
           \<lparr>item_kind = Line,
            item_coords = [sx, sy, fst (Edge_get_midpoint e (sx, sy) (ox, oy)),
                           snd (Edge_get_midpoint e (sx, sy) (ox, oy)), ox, oy],
            item_tags = tg, item_text = [], item_fill = Some (color e),
            item_width = Some (width e * app_scale c), item_state = NORMAL\<rparr>),
        stack := stack c @ [next_id c], next_id := next_id c + 1\<rparr>)"
  by (simp add: draw_def create_line_def create_item_def Let_def)

lemma move_dst_drawn:
  assumes "edge_id e = Some l" "items c l = Some li" "item_coords li = [sx, sy, mx, my, ox, oy]"
  shows "move_dst e c x y =
     Inr (c\<lparr>items := (items c)(l \<mapsto> li\<lparr>item_coords :=
            [sx, sy, fst (Edge_get_midpoint e (sx, sy) (x, y)),
             snd (Edge_get_midpoint e (sx, sy) (x, y)), x, y]\<rparr>)\<rparr>)"
  using assms by (simp add: move_dst_def canvas_coords_def canvas_set_coords_def Let_def)



subsection \<open>What the canvas operations leave alone\<close>

lemma itemconfig_fields [simp]:
  "nodes (itemconfig c r f) = nodes c"
  "wireless_network (itemconfig c r f) = wireless_network c"
  "stack (itemconfig c r f) = stack c"
  by (simp_all add: itemconfig_def split: option.splits)

lemma tag_raise_fields [simp]:
  "nodes (tag_raise c i) = nodes c"
  "wireless_network (tag_raise c i) = wireless_network c"
  "items (tag_raise c i) = items c"
  by (simp_all add: tag_raise_def)

subsection \<open>The wireless classification, step by step\<close>

lemma register_peer_eq:
  "register_peer w hub peer = w(hub \<mapsto> insert peer (case w hub of None \<Rightarrow> {} | Some s \<Rightarrow> s))"
  by (simp add: register_peer_def split: option.splits)

lemma is_wireless_result:
  assumes "nodes c (src e) = Some ns" "dst e = Some d" "nodes c d = Some nd"
  shows "is_wireless W e c =
     Inr (W (core_node_type ns) \<or> W (core_node_type nd),
          if W (core_node_type ns) \<and> \<not> W (core_node_type nd)
          then c\<lparr>wireless_network := (wireless_network c)(src e \<mapsto> insert d (peers c (src e)))\<rparr>
          else if \<not> W (core_node_type ns) \<and> W (core_node_type nd)
          then c\<lparr>wireless_network := (wireless_network c)(d \<mapsto> insert (src e) (peers c d))\<rparr>
          else c)"
  using assms by (simp add: is_wireless_def lookup_node_def register_peer_eq peers_def Let_def)

lemma check_antenna_result:
  assumes "nodes c (src e) = Some ns" "dst e = Some d" "nodes c d = Some nd"
  shows "check_antenna W e c =
     Inr (if W (core_node_type ns) \<and> \<not> W (core_node_type nd)
          then c\<lparr>nodes := (nodes c)(d \<mapsto> nd\<lparr>antennas := Suc (antennas nd)\<rparr>)\<rparr>
          else if W (core_node_type ns) \<or> W (core_node_type nd)
          then c\<lparr>nodes := (nodes c)(src e \<mapsto> ns\<lparr>antennas := Suc (antennas ns)\<rparr>)\<rparr>
          else c)"
  using assms by (auto simp add: check_antenna_def lookup_node_def add_antenna_def Let_def)

lemma check_wireless_result:
  assumes "nodes c (src e) = Some ns" "dst e = Some d" "nodes c d = Some nd"
  shows "\<exists>c'. check_wireless W e c = Inr c' \<and>
     items c' = (if W (core_node_type ns) \<or> W (core_node_type nd)
                 then items (itemconfig c (edge_id e) (set_state HIDDEN)) else items c) \<and>
     wireless_network c' =
       (if W (core_node_type ns) \<and> \<not> W (core_node_type nd)
        then (wireless_network c)(src e \<mapsto> insert d (peers c (src e)))
        else if \<not> W (core_node_type ns) \<and> W (core_node_type nd)
        then (wireless_network c)(d \<mapsto> insert (src e) (peers c d))
        else wireless_network c) \<and>
     nodes c' =
       (if W (core_node_type ns) \<and> \<not> W (core_node_type nd)
        then (nodes c)(d \<mapsto> nd\<lparr>antennas := Suc (antennas nd)\<rparr>)
        else if W (core_node_type ns) \<or> W (core_node_type nd)
        then (nodes c)(src e \<mapsto> ns\<lparr>antennas := Suc (antennas ns)\<rparr>)
        else nodes c)"
proof -
  let ?ws = "W (core_node_type ns)" and ?wd = "W (core_node_type nd)"
  obtain c1 where c1: "is_wireless W e c = Inr (?ws \<or> ?wd, c1)"
    and n1: "nodes c1 = nodes c" and i1: "items c1 = items c"
    and w1: "wireless_network c1 =
       (if ?ws \<and> \<not> ?wd then (wireless_network c)(src e \<mapsto> insert d (peers c (src e)))
        else if \<not> ?ws \<and> ?wd then (wireless_network c)(d \<mapsto> insert (src e) (peers c d))
        else wireless_network c)"
    using is_wireless_result [OF assms, of W] by (cases "?ws"; cases "?wd"; simp)
  show ?thesis
  proof (cases "?ws \<or> ?wd")
    case False
    then show ?thesis using c1 n1 i1 w1 by (simp add: check_wireless_def)
  next
    case True
    let ?c2 = "itemconfig c1 (edge_id e) (set_state HIDDEN)"
    have n2: "nodes ?c2 (src e) = Some ns" "nodes ?c2 d = Some nd"
      using assms n1 by simp_all
    have i2: "items ?c2 = items (itemconfig c (edge_id e) (set_state HIDDEN))"
      using i1 by (simp add: itemconfig_def split: option.splits)
    show ?thesis
      using True c1 check_antenna_result [OF n2(1) assms(2) n2(2), of W] n1 i2 w1
      by (auto simp add: check_wireless_def)
  qed
qed

lemma complete_result:
  assumes "edge_id e = Some l" "items c l = Some li" "item_coords li = [sx, sy, mx, my, ox, oy]"
    and "items c d = Some ni" "item_coords ni = [x, y]"
    and "nodes c (src e) = Some ns" "nodes c d = Some nd"
  shows "\<exists>c1 c2.
     move_dst (e\<lparr>dst := Some d, token := Some (create_edge_token (src e) d)\<rparr>) c x y = Inr c1 \<and>
     check_wireless W (e\<lparr>dst := Some d, token := Some (create_edge_token (src e) d)\<rparr>) c1 = Inr c2 \<and>
     complete W e c d =
       Inr (e\<lparr>dst := Some d, token := Some (create_edge_token (src e) d)\<rparr>,
            tag_raise (tag_raise c2 (src e)) d)"
proof -
  let ?e1 = "e\<lparr>dst := Some d, token := Some (create_edge_token (src e) d)\<rparr>"
  have id1: "edge_id ?e1 = Some l" using assms(1) by simp
  obtain c1 where c1: "move_dst ?e1 c x y = Inr c1" and n1: "nodes c1 = nodes c"
    using move_dst_drawn [OF id1 assms(2) assms(3), of x y] by simp
  have ns1: "nodes c1 (src ?e1) = Some ns" "dst ?e1 = Some d" "nodes c1 d = Some nd"
    using assms n1 by simp_all
  obtain c2 where c2: "check_wireless W ?e1 c1 = Inr c2"
    using check_wireless_result [OF ns1, of W] by blast
  show ?thesis
    using assms(4,5) c1 c2 by (simp add: complete_def canvas_coords_def Let_def)
qed

lemma is_wireless_times_fixed:
  assumes "is_wireless W e c = Inr (b, c)"
  shows "is_wireless_times n W e c = Inr c"
  using assms by (induction n) simp_all

lemma is_wireless_again:
  assumes "nodes c (src e) = Some ns" "dst e = Some d" "nodes c d = Some nd"
    and "is_wireless W e c = Inr (b, c1)"
  shows "is_wireless W e c1 = Inr (b, c1)"
proof -
  let ?ws = "W (core_node_type ns)" and ?wd = "W (core_node_type nd)"
  have c1: "c1 = (if ?ws \<and> \<not> ?wd
          then c\<lparr>wireless_network := (wireless_network c)(src e \<mapsto> insert d (peers c (src e)))\<rparr>
          else if \<not> ?ws \<and> ?wd
          then c\<lparr>wireless_network := (wireless_network c)(d \<mapsto> insert (src e) (peers c d))\<rparr>
          else c)" and b: "b = (?ws \<or> ?wd)"
    using is_wireless_result [OF assms(1-3), of W] assms(4) by simp_all
  have n1: "nodes c1 (src e) = Some ns" "nodes c1 d = Some nd"
    using c1 assms(1,3) by (simp_all split: if_splits)
  show ?thesis
    using is_wireless_result [OF n1(1) assms(2) n1(2), of W] c1 b
    by (cases ?ws; cases ?wd; simp add: peers_def)
qed

subsection \<open>Deleting items\<close>

lemma removeAll_filter: "removeAll a xs = filter (\<lambda>i. i \<notin> {a}) xs"
  by (induction xs) auto

lemma filter_twice: "filter (\<lambda>i. i \<notin> B) (filter (\<lambda>i. i \<notin> A) xs) = filter (\<lambda>i. i \<notin> A \<union> B) xs"
  by (induction xs) auto

lemma restrict_twice: "m |` (- A) |` (- B) = m |` (- (A \<union> B))"
  by (auto simp add: restrict_map_def fun_eq_iff)

lemma canvas_delete_eq:
  "canvas_delete c r =
     c\<lparr>items := items c |` (- set_option r), stack := filter (\<lambda>i. i \<notin> set_option r) (stack c)\<rparr>"
proof (cases r)
  case None
  then show ?thesis by (simp add: canvas_delete_def restrict_map_def)
next
  case (Some a)
  have "(items c)(a := None) = items c |` (- {a})"
    by (simp add: restrict_complement_singleton_eq)
  then show ?thesis
    using Some by (simp only: canvas_delete_def option.case removeAll_filter option.set)
qed

lemma canvas_delete_twice:
  "canvas_delete (c\<lparr>items := items c |` (- A), stack := filter (\<lambda>i. i \<notin> A) (stack c)\<rparr>) r =
     c\<lparr>items := items c |` (- (A \<union> set_option r)),
       stack := filter (\<lambda>i. i \<notin> A \<union> set_option r) (stack c)\<rparr>"
proof -
  let ?c = "c\<lparr>items := items c |` (- A), stack := filter (\<lambda>i. i \<notin> A) (stack c)\<rparr>"
  have "items ?c |` (- set_option r) = items c |` (- (A \<union> set_option r))"
    using restrict_twice [of "items c" A "set_option r"] by simp
  moreover have "filter (\<lambda>i. i \<notin> set_option r) (stack ?c) =
                 filter (\<lambda>i. i \<notin> A \<union> set_option r) (stack c)"
    using filter_twice [of "set_option r" A "stack c"] by simp
  ultimately have "canvas_delete ?c r =
     ?c\<lparr>items := items c |` (- (A \<union> set_option r)),
        stack := filter (\<lambda>i. i \<notin> A \<union> set_option r) (stack c)\<rparr>"
    by (simp only: canvas_delete_eq)
  then show ?thesis by simp
qed

lemma delete_eq:
  "delete e c = c\<lparr>items := items c |` (- primitives e),
                  stack := filter (\<lambda>i. i \<notin> primitives e) (stack c)\<rparr>"
proof -
  have "Edge_delete e c =
     c\<lparr>items := items c |` (- set_option (edge_id e)),
       stack := filter (\<lambda>i. i \<notin> set_option (edge_id e)) (stack c)\<rparr>"
    by (simp only: Edge_delete_def canvas_delete_eq)
  then show ?thesis
    by (simp only: delete_def Let_def canvas_delete_twice primitives_def)
qed

subsection \<open>The invariant holds in every reachable state\<close>

lemma keeps_refl: "keeps e c c"
  by (simp add: keeps_def)

lemma keepsI:
  assumes "next_id c \<le> next_id c'"
    and "\<And>i. i \<in> primitives e \<Longrightarrow> items c i \<noteq> None \<Longrightarrow> items c' i \<noteq> None"
    and "\<And>l. edge_id e = Some l \<Longrightarrow> items c l = None \<Longrightarrow> items c' l = None"
    and "\<And>l it. edge_id e = Some l \<Longrightarrow> items c l = Some it \<Longrightarrow> length (item_coords it) = 6 \<Longrightarrow>
           \<exists>it'. items c' l = Some it' \<and> length (item_coords it') = 6"
  shows "keeps e c c'"
  using assms unfolding keeps_def by blast

lemma keepsD:
  assumes "keeps e c c'"
  shows "next_id c \<le> next_id c'"
    and "\<And>i. i \<in> primitives e \<Longrightarrow> items c i \<noteq> None \<Longrightarrow> items c' i \<noteq> None"
    and "\<And>l. edge_id e = Some l \<Longrightarrow> items c l = None \<Longrightarrow> items c' l = None"
    and "\<And>l it. edge_id e = Some l \<Longrightarrow> items c l = Some it \<Longrightarrow> length (item_coords it) = 6 \<Longrightarrow>
           \<exists>it'. items c' l = Some it' \<and> length (item_coords it') = 6"
  using assms unfolding keeps_def by blast+

lemma keeps_trans:
  assumes "keeps e c c1" "keeps e c1 c2"
  shows "keeps e c c2"
proof (rule keepsI)
  show "next_id c \<le> next_id c2"
    using keepsD(1) [OF assms(1)] keepsD(1) [OF assms(2)] by simp
next
  fix i assume "i \<in> primitives e" "items c i \<noteq> None"
  then show "items c2 i \<noteq> None"
    using keepsD(2) [OF assms(1)] keepsD(2) [OF assms(2)] by blast
next
  fix l assume "edge_id e = Some l" "items c l = None"
  then show "items c2 l = None"
    using keepsD(3) [OF assms(1)] keepsD(3) [OF assms(2)] by blast
next
  fix l it assume a: "edge_id e = Some l" "items c l = Some it" "length (item_coords it) = 6"
  then obtain it1 where "items c1 l = Some it1" "length (item_coords it1) = 6"
    using keepsD(4) [OF assms(1)] by blast
  then show "\<exists>it'. items c2 l = Some it' \<and> length (item_coords it') = 6"
    using keepsD(4) [OF assms(2) a(1)] by blast
qed

lemma keeps_same_primitives: "same_primitives e e' \<Longrightarrow> keeps e c c' \<Longrightarrow> keeps e' c c'"
  by (simp add: keeps_def same_primitives_def primitives_def)

lemma edge_invE:
  assumes "edge_inv e c"
  obtains l where "edge_id e = Some l" "text_middle e = None" "line_inv l e c"
  using assms unfolding edge_inv_def by blast

lemma edge_invI:
  assumes "edge_id e = Some l" "text_middle e = None" "line_inv l e c"
  shows "edge_inv e c"
  using assms unfolding edge_inv_def by blast

lemma line_inv_keeps:
  assumes "line_inv l e c" "edge_id e = Some l" "keeps e c c'" "same_primitives e e'"
  shows "line_inv l e' c'"
proof -
  have l: "l < next_id c" "(text_src e = None \<longleftrightarrow> text_dst e = None)"
    "text_src e \<noteq> Some l" "text_dst e \<noteq> Some l" "text_src e = None \<or> text_src e \<noteq> text_dst e"
    and alive: "items c l = None \<or>
          (\<exists>it. items c l = Some it \<and> length (item_coords it) = 6 \<and>
                (\<forall>i \<in> primitives e. items c i \<noteq> None))"
    using assms(1) unfolding line_inv_def by blast+
  have p: "primitives e' = primitives e"
    using assms(4) by (simp add: same_primitives_def primitives_def)
  have alive': "items c' l = None \<or>
          (\<exists>it. items c' l = Some it \<and> length (item_coords it) = 6 \<and>
                (\<forall>i \<in> primitives e'. items c' i \<noteq> None))"
  proof (cases "items c l")
    case None
    then show ?thesis using keepsD(3) [OF assms(3,2)] by simp
  next
    case (Some it)
    with alive have it: "length (item_coords it) = 6" "\<forall>i \<in> primitives e. items c i \<noteq> None"
      by simp_all
    from keepsD(4) [OF assms(3,2) Some it(1)]
    obtain it' where it': "items c' l = Some it'" "length (item_coords it') = 6"
      by (elim exE conjE)
    have "\<forall>i \<in> primitives e'. items c' i \<noteq> None"
    proof
      fix i assume "i \<in> primitives e'"
      then have i: "i \<in> primitives e" using p by simp
      then have "items c i \<noteq> None" using it(2) by (rule_tac bspec)
      with i show "items c' i \<noteq> None" by (rule keepsD(2) [OF assms(3)])
    qed
    with it' show ?thesis by simp
  qed
  have n: "l < next_id c'"
    using l(1) keepsD(1) [OF assms(3)] by simp
  have e': "text_src e' = text_src e" "text_dst e' = text_dst e"
    using assms(4) by (simp_all add: same_primitives_def)
  show ?thesis
    unfolding line_inv_def e' using n l(2-5) alive' by (intro conjI)
qed

lemma edge_inv_keeps:
  assumes "edge_inv e c" "keeps e c c'" "same_primitives e e'"
  shows "edge_inv e' c'"
proof -
  from assms(1) obtain l where l: "edge_id e = Some l" "text_middle e = None" "line_inv l e c"
    by (rule edge_invE)
  have "edge_id e' = Some l" "text_middle e' = None"
    using l(1,2) assms(3) by (simp_all add: same_primitives_def)
  then show ?thesis
    using line_inv_keeps [OF l(3,1) assms(2,3)] by (rule edge_invI)
qed

lemma keeps_same_items:
  assumes "items c' = items c" "next_id c' = next_id c"
  shows "keeps e c c'"
  using assms by (simp add: keeps_def)

lemma items_itemconfig:
  "items (itemconfig c r f) i =
     (if r = Some i then map_option f (items c i) else items c i)"
  by (cases r; cases "items c i") (auto simp add: itemconfig_def split: option.splits)

lemma next_id_itemconfig [simp]: "next_id (itemconfig c r f) = next_id c"
  by (simp add: itemconfig_def split: option.splits)

lemma keeps_same_shape:
  assumes "next_id c \<le> next_id c'"
    and "\<And>i. map_option (\<lambda>it. length (item_coords it)) (items c' i) =
              map_option (\<lambda>it. length (item_coords it)) (items c i)"
  shows "keeps e c c'"
proof (rule keepsI)
  show "next_id c \<le> next_id c'" by (rule assms(1))
next
  fix i assume "items c i \<noteq> None"
  then show "items c' i \<noteq> None"
    using assms(2) [of i] by (cases "items c' i") auto
next
  fix l assume "items c l = None"
  then show "items c' l = None"
    using assms(2) [of l] by (cases "items c' l") auto
next
  fix l it assume "items c l = Some it" "length (item_coords it) = 6"
  then show "\<exists>it'. items c' l = Some it' \<and> length (item_coords it') = 6"
    using assms(2) [of l] by (cases "items c' l") auto
qed

lemma keeps_itemconfig:
  assumes "\<And>it. item_coords (f it) = item_coords it"
  shows "keeps e c (itemconfig c r f)"
  by (rule keeps_same_shape) (simp_all add: items_itemconfig assms option.map_comp comp_def)

lemma items_set_coords:
  assumes "canvas_set_coords c r cs = Inr c'"
  shows "\<exists>i. r = Some i \<and> next_id c' = next_id c \<and>
     (\<forall>j. items c' j = (if j = i then map_option (\<lambda>it. it\<lparr>item_coords := cs\<rparr>) (items c i)
                        else items c j))"
proof (cases r)
  case None
  then show ?thesis using assms by (simp add: canvas_set_coords_def)
next
  case (Some i)
  show ?thesis
  proof (cases "items c i")
    case None
    then show ?thesis using assms Some by (auto simp add: canvas_set_coords_def)
  next
    case (Some it)
    then show ?thesis using assms \<open>r = Some i\<close> by (auto simp add: canvas_set_coords_def)
  qed
qed

lemma keeps_set_coords:
  assumes "canvas_set_coords c r cs = Inr c'" "r = edge_id e \<longrightarrow> length cs = 6"
  shows "keeps e c c'"
proof -
  from items_set_coords [OF assms(1)] obtain i where i: "r = Some i" "next_id c' = next_id c"
    and it: "\<And>j. items c' j = (if j = i then map_option (\<lambda>it. it\<lparr>item_coords := cs\<rparr>) (items c i)
                        else items c j)"
    by blast
  show ?thesis
  proof (rule keepsI)
    show "next_id c \<le> next_id c'" using i(2) by simp
  next
    fix j assume "items c j \<noteq> None"
    then show "items c' j \<noteq> None" by (auto simp add: it)
  next
    fix l assume "items c l = None"
    then show "items c' l = None" by (auto simp add: it)
  next
    fix l it0 assume "edge_id e = Some l" "items c l = Some it0" "length (item_coords it0) = 6"
    then show "\<exists>it'. items c' l = Some it' \<and> length (item_coords it') = 6"
      using assms(2) i(1) by (auto simp add: it)
  qed
qed

lemma canvas_coords_Inr:
  assumes "canvas_coords c r = Inr cs" "cs \<noteq> []"
  shows "\<exists>l it. r = Some l \<and> items c l = Some it \<and> item_coords it = cs"
  using assms by (auto simp add: canvas_coords_def split: option.splits)

lemma move_dst_Inr:
  assumes "move_dst e c x y = Inr c'"
  shows "\<exists>cs. length cs = 6 \<and> canvas_set_coords c (edge_id e) cs = Inr c'"
proof -
  obtain cs where cs: "canvas_coords c (edge_id e) = Inr cs"
    using assms by (cases "canvas_coords c (edge_id e)") (simp_all add: move_dst_def)
  obtain a b m1 m2 d1 d2 where "cs = [a, b, m1, m2, d1, d2]"
    using assms cs by (auto simp add: move_dst_def split: list.splits)
  with assms cs have "canvas_set_coords c (edge_id e)
      [a, b, fst (Edge_get_midpoint e (a, b) (x, y)), snd (Edge_get_midpoint e (a, b) (x, y)), x, y] =
      Inr c'"
    by (simp add: move_dst_def Let_def)
  then show ?thesis
    by (intro exI [of _ "[a, b, fst (Edge_get_midpoint e (a, b) (x, y)),
                          snd (Edge_get_midpoint e (a, b) (x, y)), x, y]"]) simp
qed

lemma move_src_Inr:
  assumes "move_src e c x y = Inr c'"
  shows "\<exists>cs. length cs = 6 \<and> canvas_set_coords c (edge_id e) cs = Inr c'"
proof -
  obtain cs where cs: "canvas_coords c (edge_id e) = Inr cs"
    using assms by (cases "canvas_coords c (edge_id e)") (simp_all add: move_src_def)
  obtain a b m1 m2 d1 d2 where "cs = [a, b, m1, m2, d1, d2]"
    using assms cs by (auto simp add: move_src_def split: list.splits)
  with assms cs have "canvas_set_coords c (edge_id e)
      [x, y, fst (Edge_get_midpoint e (x, y) (d1, d2)), snd (Edge_get_midpoint e (x, y) (d1, d2)),
       d1, d2] = Inr c'"
    by (simp add: move_src_def Let_def)
  then show ?thesis
    by (intro exI [of _ "[x, y, fst (Edge_get_midpoint e (x, y) (d1, d2)),
                          snd (Edge_get_midpoint e (x, y) (d1, d2)), d1, d2]"]) simp
qed

lemma get_coordinates_Inr:
  assumes "get_coordinates e c = Inr r"
  shows "\<exists>l it. edge_id e = Some l \<and> items c l = Some it \<and> length (item_coords it) = 6"
proof -
  obtain cs where cs: "canvas_coords c (edge_id e) = Inr cs"
    using assms by (cases "canvas_coords c (edge_id e)") (simp_all add: get_coordinates_def)
  obtain a b m1 m2 d1 d2 where "cs = [a, b, m1, m2, d1, d2]"
    using assms cs by (auto simp add: get_coordinates_def split: list.splits)
  then show ?thesis
    using canvas_coords_Inr [OF cs] by auto
qed

lemma get_midpoint_Inr:
  assumes "get_midpoint e c = Inr r"
  shows "\<exists>l it. edge_id e = Some l \<and> items c l = Some it \<and> length (item_coords it) = 4"
proof -
  obtain cs where cs: "canvas_coords c (edge_id e) = Inr cs"
    using assms by (cases "canvas_coords c (edge_id e)") (simp_all add: get_midpoint_def)
  obtain a b d1 d2 where "cs = [a, b, d1, d2]"
    using assms cs by (auto simp add: get_midpoint_def split: list.splits)
  then show ?thesis
    using canvas_coords_Inr [OF cs] by auto
qed

lemma move_dst_keeps: "move_dst e c x y = Inr c' \<Longrightarrow> keeps e c c'"
  using move_dst_Inr keeps_set_coords by blast

lemma move_src_keeps: "move_src e c x y = Inr c' \<Longrightarrow> keeps e c c'"
  using move_src_Inr keeps_set_coords by blast

lemma Edge_move_node_keeps: "Edge_move_node e c node_id x y = Inr c' \<Longrightarrow> keeps e c c'"
  by (auto simp add: Edge_move_node_def move_dst_keeps move_src_keeps split: if_splits)

lemma update_labels_keeps:
  assumes "update_labels e c = Inr c'" "text_middle e = None"
    "text_src e \<noteq> edge_id e" "text_dst e \<noteq> edge_id e"
  shows "keeps e c c'"
proof -
  obtain r where r: "get_coordinates e c = Inr r"
    using assms(1) by (cases "get_coordinates e c") (simp_all add: update_labels_def)
  obtain x1 y1 x2 y2 where xy: "r = (x1, y1, x2, y2)"
    by (cases r) auto
  obtain c1 where c1: "canvas_set_coords c (text_src e) [x1, y1] = Inr c1"
    using assms(1) r xy
    by (cases "canvas_set_coords c (text_src e) [x1, y1]") (simp_all add: update_labels_def)
  have c2: "canvas_set_coords c1 (text_dst e) [x2, y2] = Inr c'"
    using assms(1,2) r xy c1
    by (cases "canvas_set_coords c1 (text_dst e) [x2, y2]") (simp_all add: update_labels_def)
  have "keeps e c c1"
    using assms(3) by (intro keeps_set_coords [OF c1]) simp
  moreover have "keeps e c1 c'"
    using assms(4) by (intro keeps_set_coords [OF c2]) simp
  ultimately show ?thesis
    by (rule keeps_trans)
qed

lemma move_node_keeps:
  assumes "move_node e c node_id x y = Inr c'" "text_middle e = None"
    "text_src e \<noteq> edge_id e" "text_dst e \<noteq> edge_id e"
  shows "keeps e c c'"
proof -
  obtain c1 where c1: "Edge_move_node e c node_id x y = Inr c1"
    using assms(1) by (cases "Edge_move_node e c node_id x y") (simp_all add: move_node_def)
  then have "update_labels e c1 = Inr c'"
    using assms(1) by (simp add: move_node_def)
  from Edge_move_node_keeps [OF c1] update_labels_keeps [OF this assms(2-4)]
  show ?thesis by (rule keeps_trans)
qed

lemma is_wireless_same_items:
  assumes "is_wireless W e c = Inr (b, c')"
  shows "items c' = items c \<and> next_id c' = next_id c"
proof -
  obtain ns where ns: "lookup_node c (Some (src e)) = Inr ns"
    using assms by (cases "lookup_node c (Some (src e))") (simp_all add: is_wireless_def)
  obtain nd where nd: "lookup_node c (dst e) = Inr nd"
    using assms ns by (cases "lookup_node c (dst e)") (simp_all add: is_wireless_def)
  show ?thesis
    using assms ns nd by (cases "dst e") (auto simp add: is_wireless_def Let_def split: if_splits)
qed

lemma check_antenna_same_items:
  assumes "check_antenna W e c = Inr c'"
  shows "items c' = items c \<and> next_id c' = next_id c"
proof -
  obtain ns where ns: "lookup_node c (Some (src e)) = Inr ns"
    using assms by (cases "lookup_node c (Some (src e))") (simp_all add: check_antenna_def)
  obtain nd where nd: "lookup_node c (dst e) = Inr nd"
    using assms ns by (cases "lookup_node c (dst e)") (simp_all add: check_antenna_def)
  have a: "items (add_antenna c h) = items c \<and> next_id (add_antenna c h) = next_id c" for h
    by (simp add: add_antenna_def split: option.splits)
  show ?thesis
    using assms ns nd a
    by (cases "dst e") (auto simp add: check_antenna_def Let_def split: if_splits)
qed

lemma is_wireless_keeps: "is_wireless W e c = Inr (b, c') \<Longrightarrow> keeps e c c'"
  using is_wireless_same_items keeps_same_items by blast

lemma check_antenna_keeps: "check_antenna W e c = Inr c' \<Longrightarrow> keeps e c c'"
  using check_antenna_same_items keeps_same_items by blast

lemma item_coords_set [simp]:
  "item_coords (set_state v it) = item_coords it"
  "item_coords (set_style col w it) = item_coords it"
  "item_coords (set_text t it) = item_coords it"
  by (simp_all add: set_state_def set_style_def set_text_def split: option.splits)

lemma check_wireless_keeps:
  assumes "check_wireless W e c = Inr c'"
  shows "keeps e c c'"
proof -
  obtain b c1 where c1: "is_wireless W e c = Inr (b, c1)"
    using assms by (cases "is_wireless W e c") (auto simp add: check_wireless_def)
  have k1: "keeps e c c1"
    using c1 by (rule is_wireless_keeps)
  show ?thesis
  proof (cases b)
    case False
    then show ?thesis using assms c1 k1 by (simp add: check_wireless_def)
  next
    case True
    then have "check_antenna W e (itemconfig c1 (edge_id e) (set_state HIDDEN)) = Inr c'"
      using assms c1 by (simp add: check_wireless_def)
    then have "keeps e (itemconfig c1 (edge_id e) (set_state HIDDEN)) c'"
      by (rule check_antenna_keeps)
    moreover have "keeps e c1 (itemconfig c1 (edge_id e) (set_state HIDDEN))"
      by (rule keeps_itemconfig) simp
    ultimately show ?thesis
      using k1 keeps_trans by blast
  qed
qed

lemma tag_raise_keeps: "keeps e c (tag_raise c i)"
  by (rule keeps_same_items) (simp_all add: tag_raise_def)

lemma complete_keeps:
  assumes "complete W e c d = Inr (e', c')"
  shows "same_primitives e e' \<and> keeps e c c'"
proof -
  let ?e1 = "e\<lparr>dst := Some d, token := Some (create_edge_token (src e) d)\<rparr>"
  have sp: "same_primitives e ?e1" "same_primitives ?e1 e"
    by (simp_all add: same_primitives_def)
  obtain cs where cs: "canvas_coords c (Some d) = Inr cs"
    using assms by (cases "canvas_coords c (Some d)") (simp_all add: complete_def Let_def)
  obtain x y where xy: "cs = [x, y]"
    using assms cs by (auto simp add: complete_def Let_def split: list.splits)
  obtain c1 where c1: "move_dst ?e1 c x y = Inr c1"
    using assms cs xy by (cases "move_dst ?e1 c x y") (simp_all add: complete_def Let_def)
  obtain c2 where c2: "check_wireless W ?e1 c1 = Inr c2"
    using assms cs xy c1 by (cases "check_wireless W ?e1 c1") (simp_all add: complete_def Let_def)
  have res: "e' = ?e1" "c' = tag_raise (tag_raise c2 (src e)) d"
    using assms cs xy c1 c2 by (auto simp add: complete_def Let_def)
  have "keeps ?e1 c c1"
    using c1 by (rule move_dst_keeps)
  moreover have "keeps ?e1 c1 c2"
    using c2 by (rule check_wireless_keeps)
  moreover have "keeps ?e1 c2 c'"
    unfolding res using tag_raise_keeps keeps_trans by blast
  ultimately have "keeps ?e1 c c'"
    using keeps_trans by blast
  then show ?thesis
    using res(1) sp keeps_same_primitives by blast
qed

lemma redraw_keeps:
  assumes "redraw e c = Inr c'"
  shows "keeps e c c'"
proof -
  obtain l1 l2 where "create_labels e = Inr (l1, l2)"
    using assms by (cases "create_labels e") (auto simp add: redraw_def)
  then have c': "c' = itemconfig (itemconfig c (text_src e) (set_text l1)) (text_dst e) (set_text l2)"
    using assms by (simp add: redraw_def)
  have "keeps e c (itemconfig c (text_src e) (set_text l1))"
    by (rule keeps_itemconfig) simp
  moreover have "keeps e (itemconfig c (text_src e) (set_text l1)) c'"
    unfolding c' by (rule keeps_itemconfig) simp
  ultimately show ?thesis
    by (rule keeps_trans)
qed

lemma edge_inv_no_midpoint:
  assumes "edge_inv e c"
  shows "\<exists>err. get_midpoint e c = Inl err"
proof (cases "get_midpoint e c")
  case (Inl err)
  then show ?thesis by simp
next
  case (Inr r)
  from get_midpoint_Inr [OF Inr] obtain l it where
    l: "edge_id e = Some l" "items c l = Some it" "length (item_coords it) = 4"
    by blast
  from assms obtain l' where l': "edge_id e = Some l'" "line_inv l' e c"
    by (rule edge_invE)
  then have "length (item_coords it) = 6"
    using l(1,2) by (auto simp add: line_inv_def)
  then show ?thesis using l(3) by simp
qed

lemma set_throughput_never_returns:
  assumes "edge_inv e c"
  shows "\<exists>err. set_throughput fl e c tp = Inl err"
proof -
  from assms have "text_middle e = None"
    by (rule edge_invE)
  moreover obtain err where "get_midpoint e c = Inl err"
    using edge_inv_no_midpoint [OF assms] by blast
  ultimately show ?thesis
    by (simp add: set_throughput_def)
qed

lemma reset_inv:
  assumes "edge_inv e c" "reset e c = (e', c')"
  shows "edge_inv e' c'"
proof -
  from assms(1) have m: "text_middle e = None"
    by (rule edge_invE)
  then have e': "e' = e\<lparr>text_middle := None\<rparr>"
    and c': "c' = itemconfig c (edge_id e) (set_style EDGE_COLOR EDGE_WIDTH)"
    using assms(2) by (auto simp add: reset_def canvas_delete_def Let_def)
  have "same_primitives e e'"
    using m e' by (simp add: same_primitives_def)
  moreover have "keeps e c c'"
    unfolding c' by (rule keeps_itemconfig) simp
  ultimately show ?thesis
    using assms(1) edge_inv_keeps by blast
qed

lemma delete_inv:
  assumes "edge_inv e c"
  shows "edge_inv e (delete e c)" "edge_inv e (Edge_delete e c)"
proof -
  from assms obtain l where l: "edge_id e = Some l" "text_middle e = None" "line_inv l e c"
    by (rule edge_invE)
  have "l \<in> primitives e"
    using l(1) by (simp add: primitives_def)
  then have "items (delete e c) l = None" "next_id (delete e c) = next_id c"
    by (simp_all add: delete_eq restrict_map_def)
  then have "line_inv l e (delete e c)"
    using l(3) by (auto simp add: line_inv_def)
  then show "edge_inv e (delete e c)"
    using l(1,2) edge_invI by blast
  have "items (Edge_delete e c) l = None" "next_id (Edge_delete e c) = next_id c"
    using l(1) by (simp_all add: Edge_delete_def canvas_delete_def)
  then have "line_inv l e (Edge_delete e c)"
    using l(3) by (auto simp add: line_inv_def)
  then show "edge_inv e (Edge_delete e c)"
    using l(1,2) edge_invI by blast
qed

lemma draw_labels_inv:
  assumes "edge_inv e c" "draw_labels e c = Inr (e', c')"
  shows "edge_inv e' c'"
proof -
  from assms(1) obtain l where l: "edge_id e = Some l" "text_middle e = None" "line_inv l e c"
    by (rule edge_invE)
  obtain r where r: "get_coordinates e c = Inr r"
    using assms(2) by (cases "get_coordinates e c") (simp_all add: draw_labels_def)
  from get_coordinates_Inr [OF r] l(1) obtain it where
    it: "items c l = Some it" "length (item_coords it) = 6"
    by auto
  obtain x1 y1 x2 y2 where xy: "r = (x1, y1, x2, y2)"
    by (cases r) auto
  obtain l1 l2 where lab: "create_labels e = Inr (l1, l2)"
    using assms(2) r xy by (cases "create_labels e") (auto simp add: draw_labels_def)
  have n: "l < next_id c"
    using l(3) by (simp add: line_inv_def)
  have e': "e' = e\<lparr>text_src := Some (next_id c), text_dst := Some (next_id c + 1)\<rparr>"
    and i1: "items c' l = Some it" "items c' (next_id c) \<noteq> None" "items c' (next_id c + 1) \<noteq> None"
    and n': "next_id c' = next_id c + 2"
    using assms(2) r xy lab n it(1)
    by (auto simp add: draw_labels_def create_text_def create_item_def Let_def)
  have p: "primitives e' = {l, next_id c, next_id c + 1}"
    using e' l(1,2) by (auto simp add: primitives_def)
  have all: "\<forall>i \<in> primitives e'. items c' i \<noteq> None"
    unfolding p using i1 by simp
  have t: "text_src e' = Some (next_id c)" "text_dst e' = Some (next_id c + 1)"
    using e' by simp_all
  have "line_inv l e' c'"
    unfolding line_inv_def t using n n' i1(1) it(2) all by simp
  moreover have "edge_id e' = Some l" "text_middle e' = None"
    using e' l(1,2) by simp_all
  ultimately show ?thesis
    using edge_invI by blast
qed

lemma set_link_inv:
  assumes "edge_inv e c" "set_link e c lk = Inr (e', c')"
  shows "edge_inv e' c'"
proof -
  have "same_primitives e (e\<lparr>link := Some lk\<rparr>)"
    by (simp add: same_primitives_def)
  then have "edge_inv (e\<lparr>link := Some lk\<rparr>) c"
    using assms(1) keeps_refl edge_inv_keeps by blast
  then show ?thesis
    using assms(2) draw_labels_inv unfolding set_link_def by blast
qed

lemma CanvasEdge_init_inv:
  assumes "CanvasEdge_init c0 s src_pos dst_pos = Inr (e, c)"
  shows "edge_inv e c"
proof -
  obtain sx sy ox oy where p: "src_pos = (sx, sy)" "dst_pos = (ox, oy)"
    by (cases src_pos; cases dst_pos) auto
  have e: "e = (Edge_init s None)\<lparr>edge_id := Some (next_id c0)\<rparr>"
    and c: "next_id c = next_id c0 + 1"
      "\<exists>it. items c (next_id c0) = Some it \<and> length (item_coords it) = 6"
    using assms unfolding p CanvasEdge_init_def draw_six_coordinates
    by (auto simp add: set_binding_def tag_bind_def)
  have "line_inv (next_id c0) e c"
    using c by (auto simp add: line_inv_def e Edge_init_def primitives_def)
  then show ?thesis
    using e by (intro edge_invI [of e "next_id c0"]) (simp_all add: Edge_init_def)
qed

lemma host_step_keeps:
  assumes "host_step e c c'"
  shows "keeps e c c'"
  using assms by (auto simp add: host_step_def keeps_def primitives_def)

lemma edge_inv_labels:
  assumes "edge_inv e c"
  shows "text_src e \<noteq> edge_id e" "text_dst e \<noteq> edge_id e"
  using assms by (auto elim!: edge_invE simp add: line_inv_def)

lemma reachable_inv:
  assumes "reachable fl W e c"
  shows "edge_inv e c"
  using assms
proof (induction rule: reachable.induct)
  case (created c0 s src_pos dst_pos e c)
  then show ?case using CanvasEdge_init_inv by blast
next
  case (host_canvas e c c')
  then show ?case using host_step_keeps edge_inv_keeps same_primitives_def by blast
next
  case (host_attributes e c e')
  then show ?case using keeps_refl edge_inv_keeps by blast
next
  case (completed e c d e' c')
  then show ?case using complete_keeps edge_inv_keeps by blast
next
  case (link_set e c l e' c')
  then show ?case using set_link_inv by blast
next
  case (redrawn e c c')
  then show ?case using redraw_keeps edge_inv_keeps same_primitives_def by blast
next
  case (node_moved e c node_id x y c')
  have "text_middle e = None" using node_moved.IH by (rule edge_invE)
  then have "keeps e c c'"
    using move_node_keeps [OF node_moved.hyps(2)] edge_inv_labels [OF node_moved.IH] by blast
  then show ?case using node_moved.IH edge_inv_keeps same_primitives_def by blast
next
  case (throughput_set e c tp e' c')
  then show ?case using set_throughput_never_returns [of e c fl tp] by auto
next
  case (was_reset e c e' c')
  then show ?case using reset_inv by blast
next
  case (deleted e c)
  then show ?case using delete_inv(1) by blast
next
  case (line_deleted e c)
  then show ?case using delete_inv(2) by blast
next
  case (src_moved e c x y c')
  then show ?case using move_src_keeps edge_inv_keeps same_primitives_def by blast
next
  case (dst_moved e c x y c')
  then show ?case using move_dst_keeps edge_inv_keeps same_primitives_def by blast
next
  case (base_node_moved e c node_id x y c')
  then show ?case using Edge_move_node_keeps edge_inv_keeps same_primitives_def by blast
next
  case (labels_updated e c c')
  have "text_middle e = None" using labels_updated.IH by (rule edge_invE)
  then have "keeps e c c'"
    using update_labels_keeps [OF labels_updated.hyps(2)] edge_inv_labels [OF labels_updated.IH]
    by blast
  then show ?case using labels_updated.IH edge_inv_keeps same_primitives_def by blast
next
  case (labels_drawn e c e' c')
  then show ?case using draw_labels_inv by blast
next
  case (wireless_checked e c c')
  then show ?case using check_wireless_keeps edge_inv_keeps same_primitives_def by blast
next
  case (wireless_tested e c b c')
  then show ?case using is_wireless_keeps edge_inv_keeps same_primitives_def by blast
next
  case (antenna_checked e c c')
  then show ?case using check_antenna_keeps edge_inv_keeps same_primitives_def by blast
qed

subsection \<open>Edge tokens\<close>

text \<open>
  C9. \<open>create_edge_token\<close> is a total function without error cases, and it is commutative:
  the token of \<open>a\<close> and \<open>b\<close> is the token of \<open>b\<close> and \<open>a\<close>, namely the smaller handle
  followed by the larger one. The token of \<open>a\<close> and \<open>a\<close> is \<open>(a, a)\<close>. The class method
  \<open>Edge.create_token\<close> computes the same token.
\<close>

theorem create_edge_token_commutative:
  "create_edge_token a b = create_edge_token b a \<and> create_token a b = create_token b a \<and>
   create_edge_token a b = [min a b, max a b] \<and> create_token a b = create_edge_token a b \<and>
   create_edge_token a a = [a, a]"
  by (simp add: create_edge_token_def create_token_def min_def max_def)

subsection \<open>The control point of the line\<close>

text \<open>
  With an arc of 0 the control point is the geometric midpoint, and for every arc it lies
  at distance \<open>|arc|\<close> from the midpoint.
\<close>

lemma Edge_get_midpoint_straight:
  assumes "arc e = 0"
  shows "Edge_get_midpoint e (src_x, src_y) (dst_x, dst_y) = ((src_x + dst_x) / 2, (src_y + dst_y) / 2)"
  using assms by (simp add: Edge_get_midpoint_def)

lemma Edge_get_midpoint_distance:
  "(fst (Edge_get_midpoint e (src_x, src_y) (dst_x, dst_y)) - (src_x + dst_x) / 2)\<^sup>2 +
   (snd (Edge_get_midpoint e (src_x, src_y) (dst_x, dst_y)) - (src_y + dst_y) / 2)\<^sup>2 = (arc e)\<^sup>2"
proof -
  let ?t = "atan2 (dst_y - src_y) (dst_x - src_y)"
  have "(arc e * sin ?t)\<^sup>2 + (arc e * cos ?t)\<^sup>2 = (arc e)\<^sup>2 * ((sin ?t)\<^sup>2 + (cos ?t)\<^sup>2)"
    by (simp only: power_mult_distrib distrib_left)
  also have "\<dots> = (arc e)\<^sup>2"
    by simp
  finally show ?thesis
    by (simp add: Edge_get_midpoint_def Let_def)
qed

text \<open>
  The offset is perpendicular to the vector \<open>(dst_x - src_y, dst_y - src_y)\<close> from which the
  angle is taken. That is the vector from source to destination only when \<open>src_x = src_y\<close>.
\<close>

lemma atan2_direction: "x * sin (atan2 y x) = y * cos (atan2 y x)"
proof -
  have pos: "x * sin (arctan (y / x)) = y * cos (arctan (y / x))" if "x \<noteq> 0"
    using that by (simp add: sin_arctan cos_arctan)
  show ?thesis
    using pos by (auto simp add: atan2_def)
qed

lemma Edge_get_midpoint_offset_direction:
  "(fst (Edge_get_midpoint e (src_x, src_y) (dst_x, dst_y)) - (src_x + dst_x) / 2) * (dst_x - src_y) +
   (snd (Edge_get_midpoint e (src_x, src_y) (dst_x, dst_y)) - (src_y + dst_y) / 2) * (dst_y - src_y) = 0"
proof -
  let ?t = "atan2 (dst_y - src_y) (dst_x - src_y)"
  have "arc e * sin ?t * (dst_x - src_y) + - (arc e * cos ?t) * (dst_y - src_y) =
        arc e * ((dst_x - src_y) * sin ?t - (dst_y - src_y) * cos ?t)"
    by (simp add: algebra_simps)
  also have "\<dots> = 0"
    using atan2_direction [of "dst_x - src_y" "dst_y - src_y"] by simp
  finally show ?thesis
    by (simp add: Edge_get_midpoint_def Let_def)
qed

text \<open>
  C3. The claim is that \<open>_get_midpoint\<close> returns the geometric midpoint displaced by a vector
  of length \<open>|arc|\<close> that is perpendicular to the direction from source to destination, and
  the exact midpoint for an arc of 0. For the edge with arc 1, the source at (0, 1) and the
  destination at (1, 2), the method returns (3/2, 3/2): the midpoint (1/2, 3/2) displaced
  by (1, 0). The scalar product of this offset with the direction (1, 1) is 1, so the offset
  is not perpendicular to the line.
\<close>

theorem midpoint_offset_not_perpendicular:
  "Edge_get_midpoint arced_edge (0, 1) (1, 2) = (3 / 2, 3 / 2) \<and>
   offset_dot arced_edge (0, 1) (1, 2) = 1"
  by (simp add: offset_dot_def Edge_get_midpoint_def atan2_def arced_edge_def)

subsection \<open>Moving a node\<close>

text \<open>
  C2, as stated: a call of \<open>move_node\<close> with a handle that is neither the source nor the
  destination of the edge is a no-op. It is not: for the completed edge between the nodes
  1 and 2, the call with the handle 7 and the position (0, 0) returns a canvas on which
  the line ends at (0, 0).
\<close>

theorem move_node_other_handle_counterexample:
  "7 \<noteq> src completed_edge \<and> Some 7 \<noteq> dst completed_edge \<and>
   Edge_move_node completed_edge completed_canvas 7 0 0 =
     Inr (completed_canvas\<lparr>items := (items completed_canvas)(3 \<mapsto> line_item [10, 20, 5, 10, 0, 0])\<rparr>) \<and>
   Edge_move_node completed_edge completed_canvas 7 0 0 \<noteq> Inr completed_canvas"
  apply (simp add: Edge_move_node_def move_dst_def canvas_coords_def canvas_set_coords_def
      Edge_get_midpoint_def session_defs)
  apply (auto simp add: fun_eq_iff)
  done

text \<open>
  C2, amended: for a drawn edge and a handle that is neither its source nor its destination,
  \<open>Edge.move_node\<close> raises no error and takes the branch of the destination: the line keeps
  its source end, ends at \<open>(x, y)\<close> and passes through the control point computed for these
  two ends; nothing else on the canvas changes.
\<close>

theorem move_node_other_handle_moves_dst:
  assumes "edge_id e = Some l" "items c l = Some li" "item_coords li = [sx, sy, mx, my, ox, oy]"
    and "node_id \<noteq> src e" "Some node_id \<noteq> dst e"
  shows "Edge_move_node e c node_id x y =
     Inr (c\<lparr>items := (items c)(l \<mapsto> li\<lparr>item_coords :=
            [sx, sy, fst (Edge_get_midpoint e (sx, sy) (x, y)),
             snd (Edge_get_midpoint e (sx, sy) (x, y)), x, y]\<rparr>)\<rparr>)"
  using assms move_dst_drawn [OF assms(1-3), of x y] by (simp add: Edge_move_node_def)

theorem move_node_other_handle_moves_dst_witness:
  "7 \<noteq> src completed_edge \<and> Some 7 \<noteq> dst completed_edge \<and>
   Edge_move_node completed_edge completed_canvas 7 0 0 =
     Inr (completed_canvas\<lparr>items := (items completed_canvas)(3 \<mapsto> line_item [10, 20, 5, 10, 0, 0])\<rparr>)"
  using move_node_other_handle_moves_dst [of completed_edge 3 completed_canvas
      "line_item [10, 20, 60, 120, 110, 220]" 10 20 60 120 110 220 7 0 0]
  by (simp add: Edge_get_midpoint_def session_defs)






text \<open>The same call evaluated: the labels move from (40, 80) and (80, 160).\<close>

lemma session_move_node:
  "\<exists>c'. move_node labelled_edge labelled_canvas 2 210 220 = Inr c' \<and>
     canvas_coords c' (Some 3) = Inr [10, 20, 110, 120, 210, 220] \<and>
     canvas_coords c' (Some 4) = Inr [70, 80] \<and>
     canvas_coords c' (Some 5) = Inr [150, 160]"
  by (simp add: move_node_def Edge_move_node_def move_dst_def update_labels_def get_coordinates_def
      canvas_coords_def canvas_set_coords_def Edge_get_midpoint_def
      TEXT_DISTANCE_def Let_def session_defs)

subsection \<open>Throughput\<close>

text \<open>
  The text that \<open>set_throughput\<close> computes for the two inputs of the specification, for
  every rounding with a relative error of at most 1 in \<open>2 ^ 53\<close>, as that of double
  precision.
\<close>

lemma round_half_even_near:
  assumes "\<bar>z - of_int n\<bar> < 1 / 2"
  shows "round_half_even z = n"
proof (cases "of_int n \<le> z")
  case True
  then have "\<lfloor>z\<rfloor> = n" using assms by (simp add: floor_eq_iff abs_less_iff)
  then show ?thesis using assms True by (simp add: round_half_even_def Let_def abs_less_iff)
next
  case False
  then have "\<lfloor>z\<rfloor> = n - 1" using assms by (simp add: floor_eq_iff abs_less_iff)
  then show ?thesis using assms False by (simp add: round_half_even_def Let_def abs_less_iff)
qed

lemma throughput_text:
  assumes fl: "\<And>x. \<bar>fl x - x\<bar> \<le> \<bar>x\<bar> / 2 ^ 53"
  shows "format_3f (fl (fl 0.001 * 12345)) @ '' kbps'' = ''12.345 kbps''"
    and "format_3f (fl (fl 0.001 * 0)) @ '' kbps'' = ''0.000 kbps''"
proof -
  define a where "a = fl 0.001"
  define s where "s = fl (a * 12345)"
  have "\<bar>a - 1 / 1000\<bar> \<le> \<bar>1 / 1000\<bar> / 2 ^ 53"
    using fl [of "1 / 1000"] by (simp add: a_def)
  then have "\<bar>a - 1 / 1000\<bar> \<le> 1 / 1000000000000000000"
    by simp
  then have p1: "12 \<le> a * 12345" and p2: "a * 12345 \<le> 13"
    and p3: "\<bar>a * 12345 - 12345 / 1000\<bar> \<le> 1 / 10000000000000"
    by linarith+
  have "\<bar>s - a * 12345\<bar> \<le> \<bar>a * 12345\<bar> / 2 ^ 53"
    unfolding s_def by (rule fl)
  moreover have "\<bar>a * 12345\<bar> / 2 ^ 53 \<le> 13 / 2 ^ 53"
    using p1 p2 by (simp add: divide_right_mono)
  moreover have "(13::real) / 2 ^ 53 \<le> 1 / 10000000000000"
    by simp
  ultimately have "\<bar>s - a * 12345\<bar> \<le> 1 / 10000000000000"
    by linarith
  with p3 have s: "0 < s" "\<bar>s * 1000 - 12345\<bar> < 1 / 2"
    by linarith+
  have "round_half_even (\<bar>s\<bar> * 1000) = 12345"
    using round_half_even_near [of "s * 1000" 12345] s by simp
  then show "format_3f (fl (fl 0.001 * 12345)) @ '' kbps'' = ''12.345 kbps''"
    using s(1) by (simp add: format_3f_def digits.simps digit_def a_def s_def)
  have "fl 0 = 0"
    using fl [of 0] by simp
  then show "format_3f (fl (fl 0.001 * 0)) @ '' kbps'' = ''0.000 kbps''"
    by (simp add: format_3f_def round_half_even_def digits.simps digit_def)
qed

text \<open>
  On an edge without a throughput label, \<open>set_throughput\<close> asks \<open>get_midpoint\<close> for the
  position of the new label, and that call fails on the six coordinates of the line.
\<close>

lemma set_throughput_unlabelled_error:
  assumes "edge_id e = Some l" "items c l = Some li" "item_coords li = [sx, sy, mx, my, ox, oy]"
    and "text_middle e = None"
  shows "set_throughput fl e c tp = Inl ValueError"
  using assms by (simp add: set_throughput_def get_midpoint_def canvas_coords_def)

text \<open>
  In every reachable state the edge has no throughput label, and \<open>set_throughput\<close> ends
  in an error there, for every value.
\<close>

lemma reachable_no_throughput_label:
  assumes "reachable fl W e c"
  shows "text_middle e = None" and "\<exists>err. set_throughput fl e c tp = Inl err"
proof -
  show "text_middle e = None"
    using reachable_inv [OF assms] by (rule edge_invE)
  show "\<exists>err. set_throughput fl e c tp = Inl err"
    using reachable_inv [OF assms] by (rule set_throughput_never_returns)
qed

text \<open>
  On an edge that has a throughput label, the text of the label is replaced and the line
  gets the throughput colour and width exactly when the scaled value is above the threshold.
\<close>

lemma set_throughput_labelled:
  assumes "edge_id e = Some l" "items c l = Some li" "text_middle e = Some t" "items c t = Some ti"
    and "t \<noteq> l"
  shows "set_throughput fl e c tp =
     Inr (e, c\<lparr>items := (items c)
            (t \<mapsto> ti\<lparr>item_text := format_3f (fl (fl 0.001 * tp)) @ '' kbps''\<rparr>,
             l \<mapsto> if throughput_threshold c < fl (fl 0.001 * tp)
                   then li\<lparr>item_fill := Some (throughput_color c),
                           item_width := Some (throughput_width c)\<rparr>
                   else li\<lparr>item_fill := Some EDGE_COLOR, item_width := Some EDGE_WIDTH\<rparr>)\<rparr>)"
  using assms
  by (simp add: set_throughput_def itemconfig_def set_text_def set_style_def)

lemma reset_restores_default:
  assumes "edge_id e = Some l" "items c l = Some li" "text_middle e \<noteq> Some l"
  shows "\<exists>e' c' li'. reset e c = (e', c') \<and> text_middle e' = None \<and> items c' l = Some li' \<and>
     item_fill li' = Some EDGE_COLOR \<and> item_width li' = Some EDGE_WIDTH"
  using assms
  by (cases "text_middle e")
     (auto simp add: reset_def canvas_delete_def itemconfig_def set_style_def Let_def)

text \<open>
  C5. The claim is that \<open>set_throughput\<close> shows the value scaled by 0.001 with three decimals
  and the unit kbps, that the midpoint label is created on the first call and updated in
  place on later calls. The first call on the labelled edge between the nodes 1 and 2, with
  the value 12345, ends in \<open>ValueError\<close>: no label is created and no text is shown.
\<close>

theorem set_throughput_first_call_fails:
  "set_throughput fl labelled_edge labelled_canvas 12345 = Inl ValueError"
  by (simp add: set_throughput_def get_midpoint_def canvas_coords_def session_defs)

text \<open>
  C6. The claim is that after \<open>set_throughput\<close> the line has the throughput colour and width
  exactly when the throughput is above the threshold, and the default colour and width
  otherwise. On the labelled edge between the nodes 1 and 2 the threshold is 200; the call
  with the value 300000, which scales to 300, ends in \<open>ValueError\<close> before the style of
  the line is set.
\<close>

theorem set_throughput_no_escalation:
  "throughput_threshold labelled_canvas < 0.001 * 300000 \<and>
   set_throughput fl labelled_edge labelled_canvas 300000 = Inl ValueError"
  by (simp add: set_throughput_def get_midpoint_def canvas_coords_def session_defs)

subsection \<open>Wireless classification\<close>

text \<open>
  C4. For a drawn, visible edge that is completed at a node \<open>d\<close>, with both nodes known to
  the canvas, \<open>complete\<close> returns and follows the policy: if only the source is wireless,
  the destination is added to the peers of the source, the line is hidden and one antenna is
  requested on the destination and on no other node; if only the destination is wireless,
  the same with the roles exchanged; if both are wireless, the line is hidden and the
  antenna is requested on the source only; if neither is wireless, the line stays visible
  and neither the wireless network nor any node changes.
\<close>

theorem complete_wireless_policy:
  assumes "edge_id e = Some l" "items c l = Some li" "item_coords li = [sx, sy, mx, my, ox, oy]"
    and "item_state li = NORMAL"
    and "items c d = Some ni" "item_coords ni = [x, y]"
    and "nodes c (src e) = Some ns" "nodes c d = Some nd"
  shows "\<exists>e' c'. complete W e c d = Inr (e', c') \<and>
     (W (core_node_type ns) \<and> \<not> W (core_node_type nd) \<longrightarrow>
        wireless_network c' = (wireless_network c)(src e \<mapsto> insert d (peers c (src e))) \<and>
        line_state c' e' = Some HIDDEN \<and>
        nodes c' = (nodes c)(d \<mapsto> nd\<lparr>antennas := Suc (antennas nd)\<rparr>)) \<and>
     (\<not> W (core_node_type ns) \<and> W (core_node_type nd) \<longrightarrow>
        wireless_network c' = (wireless_network c)(d \<mapsto> insert (src e) (peers c d)) \<and>
        line_state c' e' = Some HIDDEN \<and>
        nodes c' = (nodes c)(src e \<mapsto> ns\<lparr>antennas := Suc (antennas ns)\<rparr>)) \<and>
     (W (core_node_type ns) \<and> W (core_node_type nd) \<longrightarrow>
        line_state c' e' = Some HIDDEN \<and>
        nodes c' = (nodes c)(src e \<mapsto> ns\<lparr>antennas := Suc (antennas ns)\<rparr>)) \<and>
     (\<not> W (core_node_type ns) \<and> \<not> W (core_node_type nd) \<longrightarrow>
        line_state c' e' = Some NORMAL \<and>
        wireless_network c' = wireless_network c \<and>
        nodes c' = nodes c)"
proof -
  let ?e1 = "e\<lparr>dst := Some d, token := Some (create_edge_token (src e) d)\<rparr>"
  let ?ws = "W (core_node_type ns)" and ?wd = "W (core_node_type nd)"
  have id1: "edge_id ?e1 = Some l" using assms(1) by simp
  obtain c1 c2 where c1: "move_dst ?e1 c x y = Inr c1"
    and c2: "check_wireless W ?e1 c1 = Inr c2"
    and res: "complete W e c d = Inr (?e1, tag_raise (tag_raise c2 (src e)) d)"
    using complete_result [OF assms(1-3) assms(5-8), of W] by blast
  have c1_eq: "c1 = c\<lparr>items := (items c)(l \<mapsto> li\<lparr>item_coords :=
            [sx, sy, fst (Edge_get_midpoint ?e1 (sx, sy) (x, y)),
             snd (Edge_get_midpoint ?e1 (sx, sy) (x, y)), x, y]\<rparr>)\<rparr>"
    using move_dst_drawn [OF id1 assms(2) assms(3), of x y] c1 by simp
  have ns1: "nodes c1 (src ?e1) = Some ns" "dst ?e1 = Some d" "nodes c1 d = Some nd"
    using assms c1_eq by simp_all
  have p1: "peers c1 = peers c" "wireless_network c1 = wireless_network c" "nodes c1 = nodes c"
    using c1_eq by (simp_all add: peers_def fun_eq_iff)
  have st1: "map_option item_state (items c1 l) = Some NORMAL"
    using c1_eq assms(4) by simp
  have st2: "map_option item_state (items (itemconfig c1 (Some l) (set_state HIDDEN)) l) = Some HIDDEN"
    using c1_eq by (simp add: itemconfig_def set_state_def)
  show ?thesis
    using res check_wireless_result [OF ns1, of W] c2 p1 st1 st2 id1
    by (cases ?ws; cases ?wd; simp add: line_state_def)
qed

text \<open>
  The scenario of the specification: the edge from the wireless hub 1 is completed at the
  ordinary node 2. The line is hidden, the peers of the hub are \<open>{2}\<close>, node 2 has one
  antenna and the hub has none.
\<close>

theorem complete_wireless_policy_witness:
  "\<exists>e' c'. complete is_type_1 pending_edge (pending_canvas 1 0) 2 = Inr (e', c') \<and>
     wireless_network c' = [1 \<mapsto> {2}] \<and>
     line_state c' e' = Some HIDDEN \<and>
     nodes c' = [1 \<mapsto> \<lparr>core_node_type = 1, antennas = 0\<rparr>, 2 \<mapsto> \<lparr>core_node_type = 0, antennas = 1\<rparr>]"
  using complete_wireless_policy [of pending_edge 3 "pending_canvas 1 0"
      "line_item [10, 20, 30, 40, 50, 60]" 10 20 30 40 50 60 2 "node_item 110 220" 110 220
      "\<lparr>core_node_type = 1, antennas = 0\<rparr>" "\<lparr>core_node_type = 0, antennas = 0\<rparr>" is_type_1]
  by (simp add: pending_edge_def pending_canvas_def empty_canvas_def line_item_def node_item_def
      Edge_init_def is_type_1_def peers_def)

text \<open>
  C10. When an edge is completed and its two nodes are both wireless, the wireless network
  is left as it was; more generally it is left as it was whenever the two nodes agree in
  being wireless or not, so a registration happens only when exactly one of them is
  wireless.
\<close>

theorem complete_registers_only_one_sided:
  assumes "edge_id e = Some l" "items c l = Some li" "item_coords li = [sx, sy, mx, my, ox, oy]"
    and "items c d = Some ni" "item_coords ni = [x, y]"
    and "nodes c (src e) = Some ns" "nodes c d = Some nd"
    and "W (core_node_type ns) = W (core_node_type nd)"
  shows "\<exists>e' c'. complete W e c d = Inr (e', c') \<and> wireless_network c' = wireless_network c"
proof -
  let ?e1 = "e\<lparr>dst := Some d, token := Some (create_edge_token (src e) d)\<rparr>"
  have id1: "edge_id ?e1 = Some l" using assms(1) by simp
  obtain c1 c2 where c1: "move_dst ?e1 c x y = Inr c1"
    and c2: "check_wireless W ?e1 c1 = Inr c2"
    and res: "complete W e c d = Inr (?e1, tag_raise (tag_raise c2 (src e)) d)"
    using complete_result [OF assms(1-7), of W] by blast
  have c1_eq: "c1 = c\<lparr>items := (items c)(l \<mapsto> li\<lparr>item_coords :=
            [sx, sy, fst (Edge_get_midpoint ?e1 (sx, sy) (x, y)),
             snd (Edge_get_midpoint ?e1 (sx, sy) (x, y)), x, y]\<rparr>)\<rparr>"
    using move_dst_drawn [OF id1 assms(2) assms(3), of x y] c1 by simp
  have ns1: "nodes c1 (src ?e1) = Some ns" "dst ?e1 = Some d" "nodes c1 d = Some nd"
    using assms c1_eq by simp_all
  have "wireless_network c2 = wireless_network c1"
    using check_wireless_result [OF ns1, of W] c2 assms(8) by auto
  then show ?thesis using res c1_eq by simp
qed

theorem complete_registers_only_one_sided_witness:
  "\<exists>e' c'. complete is_type_1 pending_edge (pending_canvas 1 1) 2 = Inr (e', c') \<and>
     wireless_network c' = Map.empty"
  using complete_registers_only_one_sided [of pending_edge 3 "pending_canvas 1 1"
      "line_item [10, 20, 30, 40, 50, 60]" 10 20 30 40 50 60 2 "node_item 110 220" 110 220
      "\<lparr>core_node_type = 1, antennas = 0\<rparr>" "\<lparr>core_node_type = 1, antennas = 0\<rparr>" is_type_1]
  by (simp add: pending_edge_def pending_canvas_def empty_canvas_def line_item_def node_item_def
      Edge_init_def is_type_1_def)

text \<open>
  C8. For an edge with exactly one wireless node, the classification returns, the peers of
  the hub are then the former peers with the other node added, and invoking the
  classification any further number of times returns the same canvas: the peer is in the
  set once.
\<close>

theorem registration_idempotent:
  assumes "nodes c (src e) = Some ns" "dst e = Some d" "nodes c d = Some nd"
    and "W (core_node_type ns) \<noteq> W (core_node_type nd)"
    and "hub = (if W (core_node_type ns) then src e else d)"
    and "peer = (if W (core_node_type ns) then d else src e)"
  shows "\<exists>c1. is_wireless W e c = Inr (True, c1) \<and>
     wireless_network c1 = (wireless_network c)(hub \<mapsto> insert peer (peers c hub)) \<and>
     is_wireless_times (Suc n) W e c = Inr c1 \<and>
     (\<forall>k. is_wireless_times k W e c1 = Inr c1)"
proof -
  obtain c1 where c1: "is_wireless W e c = Inr (True, c1)"
    and w1: "wireless_network c1 = (wireless_network c)(hub \<mapsto> insert peer (peers c hub))"
    using is_wireless_result [OF assms(1-3), of W] assms(4-6)
    by (cases "W (core_node_type ns)"; cases "W (core_node_type nd)"; simp)
  have fixed: "is_wireless W e c1 = Inr (True, c1)"
    using is_wireless_again [OF assms(1-3) c1] .
  have "is_wireless_times (Suc n) W e c = is_wireless_times n W e c1"
    using c1 by simp
  then show ?thesis
    using c1 w1 is_wireless_times_fixed [OF fixed] by simp
qed

theorem registration_idempotent_witness:
  "\<exists>c1. is_wireless is_type_1 completed_edge (pending_canvas 1 0) = Inr (True, c1) \<and>
     wireless_network c1 = [1 \<mapsto> {2}] \<and>
     is_wireless_times (Suc 2) is_type_1 completed_edge (pending_canvas 1 0) = Inr c1"
proof -
  have n: "nodes (pending_canvas 1 0) (src completed_edge) = Some \<lparr>core_node_type = 1, antennas = 0\<rparr>"
    "dst completed_edge = Some 2"
    "nodes (pending_canvas 1 0) 2 = Some \<lparr>core_node_type = 0, antennas = 0\<rparr>"
    by (simp_all add: completed_edge_def pending_edge_def pending_canvas_def empty_canvas_def
        Edge_init_def)
  have w: "is_type_1 (core_node_type \<lparr>core_node_type = 1, antennas = 0\<rparr>) \<noteq>
           is_type_1 (core_node_type \<lparr>core_node_type = 0, antennas = 0\<rparr>)"
    by (simp add: is_type_1_def)
  have hub: "1 = (if is_type_1 (core_node_type \<lparr>core_node_type = 1, antennas = 0\<rparr>)
                  then src completed_edge else 2)"
    and peer: "2 = (if is_type_1 (core_node_type \<lparr>core_node_type = 1, antennas = 0\<rparr>)
                  then 2 else src completed_edge)"
    by (simp_all add: is_type_1_def completed_edge_def pending_edge_def Edge_init_def)
  have p: "(wireless_network (pending_canvas 1 0))(1 \<mapsto> insert 2 (peers (pending_canvas 1 0) 1)) =
           [1 \<mapsto> {2}]"
    by (simp add: pending_canvas_def empty_canvas_def peers_def)
  from registration_idempotent [OF n w hub peer, of 2] p show ?thesis
    by auto
qed

subsection \<open>Deleting an edge\<close>

text \<open>
  C7, as stated: \<open>delete\<close> removes the line and the labels that are present, tolerates an
  absent label, and a second call raises no error and leaves no dangling reference to a
  primitive. The last part fails: \<open>delete\<close> assigns to no attribute of the edge, so after two
  calls the labelled edge still refers to the ids 3, 4 and 5, which have no item.
\<close>

theorem delete_leaves_references_counterexample:
  "dangling labelled_edge (delete labelled_edge (delete labelled_edge labelled_canvas))"
  by (simp add: dangling_def primitives_def delete_def Edge_delete_def canvas_delete_def session_defs)

text \<open>
  C7, amended: for every edge, whichever of its four references are absent, \<open>delete\<close>
  returns without error the canvas from which exactly the items the edge refers to are
  gone, and a second call changes nothing more. The references themselves stay in the edge
  and no longer name an item.
\<close>

theorem delete_removes_primitives:
  "delete e c = c\<lparr>items := items c |` (- primitives e),
                  stack := filter (\<lambda>i. i \<notin> primitives e) (stack c)\<rparr> \<and>
   delete e (delete e c) = delete e c"
  by (simp add: delete_eq)

text \<open>On the labelled edge: only the items of the two nodes are left.\<close>

lemma delete_labelled_edge:
  "items (delete labelled_edge labelled_canvas) = [1 \<mapsto> node_item 10 20, 2 \<mapsto> node_item 110 220]"
  "stack (delete labelled_edge labelled_canvas) = [1, 2]"
  by (auto simp add: delete_def Edge_delete_def canvas_delete_def session_defs)

end
